theory Spec2Isabelle
  imports Main "HOL-Library.Monad_Syntax"
begin

section \<open>Text and the pattern matcher used by the anonymizer\<close>

text \<open>
  A Python \<open>str\<close> is modelled as a \<open>string\<close> whose characters are the code points
  U+0000 .. U+00FF, one \<open>char\<close> each. On that range the tables below are the ones
  Python's \<open>re\<close> module uses for \<open>str\<close> patterns: \<open>\w\<close> is "alphanumeric or underscore",
  and \<open>re.IGNORECASE\<close> compares the simple lower-case mappings of two characters.
\<close>

definition ANONYMIZATION_PLACEHOLDER :: string where
  "ANONYMIZATION_PLACEHOLDER = ''[ANONYMIZED_PERSON]''"

definition is_word_char :: "char \<Rightarrow> bool" where
  "is_word_char c =
     (let n = (of_char c :: nat) in
        (48 \<le> n \<and> n \<le> 57) \<or> (65 \<le> n \<and> n \<le> 90) \<or> n = 95 \<or> (97 \<le> n \<and> n \<le> 122) \<or>
        n = 170 \<or> n = 178 \<or> n = 179 \<or> n = 181 \<or> n = 185 \<or> n = 186 \<or>
        (188 \<le> n \<and> n \<le> 190) \<or> (192 \<le> n \<and> n \<le> 214) \<or> (216 \<le> n \<and> n \<le> 246) \<or>
        248 \<le> n)"

definition to_lower :: "char \<Rightarrow> char" where
  "to_lower c =
     (let n = (of_char c :: nat) in
        if (65 \<le> n \<and> n \<le> 90) \<or> (192 \<le> n \<and> n \<le> 214) \<or> (216 \<le> n \<and> n \<le> 222)
        then char_of (n + 32) else c)"

text \<open>A literal pattern character \<open>p\<close> matches a text character \<open>c\<close> under \<open>re.IGNORECASE\<close>.\<close>

definition ci_eq :: "char \<Rightarrow> char \<Rightarrow> bool" where
  "ci_eq p c = (to_lower p = to_lower c)"

text \<open>
  \<open>\b\<close> looks at the characters on both sides of a position and holds when exactly one
  of them is a word character; outside the string counts as "not a word character".
  The scan therefore carries one bit of left context: whether the previous character
  of the subject string is a word character.
\<close>

fun at_word :: "string \<Rightarrow> bool" where
  "at_word [] = False"
| "at_word (c # cs) = is_word_char c"

definition word_boundary :: "bool \<Rightarrow> string \<Rightarrow> bool" where
  "word_boundary pw s = (pw \<noteq> at_word s)"

text \<open>
  \<open>match_tail pw name s\<close>: the escaped name matches a prefix of \<open>s\<close> character by
  character, and the closing \<open>\b\<close> holds after it.
\<close>

fun match_tail :: "bool \<Rightarrow> string \<Rightarrow> string \<Rightarrow> bool" where
  "match_tail pw [] s = word_boundary pw s"
| "match_tail pw (p # ps) [] = False"
| "match_tail pw (p # ps) (c # cs) = (ci_eq p c \<and> match_tail (is_word_char c) ps cs)"

text \<open>The pattern \<open>r'\b' + re.escape(name) + r'\b'\<close> matches at the current position.\<close>

definition match_at :: "bool \<Rightarrow> string \<Rightarrow> string \<Rightarrow> bool" where
  "match_at pw name s = (word_boundary pw s \<and> match_tail pw name s)"

text \<open>
  \<open>re.sub(pattern, ANONYMIZATION_PLACEHOLDER, text, flags=re.IGNORECASE)\<close>: the leftmost
  match is replaced and the scan resumes after it; where there is no match the
  character is copied. The matcher always reads the original subject string, never
  the text already produced. An empty name gives the pattern \<open>\b\b\<close>, which matches the
  empty string at every word boundary; after an empty match the scan copies one
  character and moves on. The placeholder holds no backslash, so it is inserted as is.
\<close>

function re_sub_from :: "bool \<Rightarrow> string \<Rightarrow> string \<Rightarrow> string" where
  "re_sub_from pw name [] =
     (if match_at pw name [] then ANONYMIZATION_PLACEHOLDER else [])"
| "re_sub_from pw name (c # cs) =
     (if match_at pw name (c # cs) then
        (if name = [] then
           ANONYMIZATION_PLACEHOLDER @ c # re_sub_from (is_word_char c) name cs
         else
           ANONYMIZATION_PLACEHOLDER @
             re_sub_from (is_word_char (last (take (length name) (c # cs)))) name
               (drop (length name) (c # cs)))
      else c # re_sub_from (is_word_char c) name cs)"
  by pat_completeness auto
termination
  by (relation "measure (\<lambda>(pw, name, s). length s)") auto

definition re_sub :: "string \<Rightarrow> string \<Rightarrow> string" where
  "re_sub name text = re_sub_from False name text"

text \<open>\<open>anonymize_text\<close>: one substitution pass per name, in list order.\<close>

fun anonymize_text :: "string \<Rightarrow> string list \<Rightarrow> string" where
  "anonymize_text text [] = text"
| "anonymize_text text (name # sensitive_names) =
     anonymize_text (re_sub name text) sensitive_names"

section \<open>Properties of texts used to state the claims\<close>

text \<open>The table of \<open>is_word_char\<close> on code points, for the arithmetic about \<open>to_lower\<close>.\<close>

definition word_code :: "nat \<Rightarrow> bool" where
  "word_code n = ((48 \<le> n \<and> n \<le> 57) \<or> (65 \<le> n \<and> n \<le> 90) \<or> n = 95 \<or> (97 \<le> n \<and> n \<le> 122) \<or>
        n = 170 \<or> n = 178 \<or> n = 179 \<or> n = 181 \<or> n = 185 \<or> n = 186 \<or>
        (188 \<le> n \<and> n \<le> 190) \<or> (192 \<le> n \<and> n \<le> 214) \<or> (216 \<le> n \<and> n \<le> 246) \<or>
        248 \<le> n)"

text \<open>
  \<open>has_match pw name s\<close>: the pattern built for \<open>name\<close> matches somewhere in \<open>s\<close>
  (what \<open>re.search\<close> with the same pattern and flags would find).
\<close>

fun has_match :: "bool \<Rightarrow> string \<Rightarrow> string \<Rightarrow> bool" where
  "has_match pw name [] = match_at pw name []"
| "has_match pw name (c # cs) = (match_at pw name (c # cs) \<or> has_match (is_word_char c) name cs)"

text \<open>Two strings of the same length that agree character by character up to case.\<close>

fun ci_equal :: "string \<Rightarrow> string \<Rightarrow> bool" where
  "ci_equal [] [] = True"
| "ci_equal (p # ps) (c # cs) = (ci_eq p c \<and> ci_equal ps cs)"
| "ci_equal _ _ = False"

text \<open>
  A name that cannot be found in text made of the placeholder itself: it is not empty,
  holds no square bracket, and is not a spelling of the word inside the placeholder.
\<close>

definition plain_name :: "string \<Rightarrow> bool" where
  "plain_name n = (n \<noteq> [] \<and> CHR ''['' \<notin> set n \<and> CHR '']'' \<notin> set n \<and>
      \<not> ci_equal n ''ANONYMIZED_PERSON'')"

text \<open>
  The left context of the scan position in the subject string (\<open>pi\<close>) and of the same
  position in the text produced so far (\<open>po\<close>): they agree, or the subject string has
  a word boundary there (the position right after a replaced match).
\<close>

definition ctx_ok :: "bool \<Rightarrow> bool \<Rightarrow> string \<Rightarrow> bool" where
  "ctx_ok pi po t = (po = pi \<or> word_boundary pi t)"

text \<open>
  A case-insensitive whole-word occurrence in the sense of the specification: the name
  is spelled out at the position, and no word character is adjacent to it on either
  side. \<open>name_here\<close> checks the spelling and the right neighbour, \<open>occurs_from\<close> the
  left neighbour at every position.
\<close>

fun name_here :: "string \<Rightarrow> string \<Rightarrow> bool" where
  "name_here [] s = (\<not> at_word s)"
| "name_here (p # ps) [] = False"
| "name_here (p # ps) (c # cs) = (ci_eq p c \<and> name_here ps cs)"

fun occurs_from :: "bool \<Rightarrow> string \<Rightarrow> string \<Rightarrow> bool" where
  "occurs_from pw name [] = (\<not> pw \<and> name_here name [])"
| "occurs_from pw name (c # cs) =
     ((\<not> pw \<and> name_here name (c # cs)) \<or> occurs_from (is_word_char c) name cs)"

definition contains_name :: "string \<Rightarrow> string \<Rightarrow> bool" where
  "contains_name s name = occurs_from False name s"

text \<open>A name whose first and last characters are word characters.\<close>

definition word_ended :: "string \<Rightarrow> bool" where
  "word_ended n = (n \<noteq> [] \<and> is_word_char (hd n) \<and> is_word_char (last n))"

text \<open>
  \<open>replaces name pw t t'\<close>: \<open>t'\<close> is \<open>t\<close> in which some matches of the pattern for \<open>name\<close> are
  replaced by the placeholder and every character outside them is copied unchanged.
  A replaced piece \<open>v\<close> is a match at its position: the name is spelled there up to
  case, with a word boundary before and after it (\<open>match_at\<close>, with \<open>pw\<close> the left
  context as in the scan). For the empty name the piece is empty and the placeholder
  is inserted at a word boundary.
\<close>

inductive replaces :: "string \<Rightarrow> bool \<Rightarrow> string \<Rightarrow> string \<Rightarrow> bool" for name where
  replaces_end: "replaces name pw [] []"
| replaces_copy:
    "replaces name (is_word_char c) t t' \<Longrightarrow> replaces name pw (c # t) (c # t')"
| replaces_subst:
    "match_at pw name (v @ t) \<Longrightarrow> length v = length name \<Longrightarrow>
     replaces name (if v = [] then pw else is_word_char (last v)) t t' \<Longrightarrow>
     replaces name pw (v @ t) (ANONYMIZATION_PLACEHOLDER @ t')"

text \<open>
  \<open>no_other_match n names s\<close>: every name of the list other than \<open>n\<close> is plain and its
  pattern matches nowhere in \<open>s\<close>.
\<close>

definition no_other_match :: "string \<Rightarrow> string list \<Rightarrow> string \<Rightarrow> bool" where
  "no_other_match n names s =
     (\<forall>m \<in> set names. m \<noteq> n \<longrightarrow> plain_name m \<and> \<not> has_match False m s)"

section \<open>Python values used by the extractors\<close>

text \<open>
  A value stored in a dict: a string, or Python's \<open>None\<close> (\<open>Null\<close>). A \<open>dict\<close> with string
  keys is kept in insertion order. \<open>subscript d k\<close> is \<open>d[k]\<close>, where the result \<open>None\<close>
  stands for the \<open>KeyError\<close> of a missing key; \<open>has_key k d\<close> is \<open>k in d\<close>;
  \<open>dict_set k v d\<close> is the assignment \<open>d[k] = v\<close>, which keeps the position of a key that
  exists and appends a new one. \<open>truthy v\<close> is the truth value of \<open>v\<close> in a condition, and
  \<open>format_value v\<close> is the text an f-string writes for \<open>v\<close>.
\<close>

datatype cell = Str string | Null

type_synonym pydict = "(string \<times> cell) list"

definition subscript :: "pydict \<Rightarrow> string \<Rightarrow> cell option" where
  "subscript d k = map_of d k"

definition has_key :: "string \<Rightarrow> pydict \<Rightarrow> bool" where
  "has_key k d = (k \<in> set (map fst d))"

fun dict_set :: "string \<Rightarrow> cell \<Rightarrow> pydict \<Rightarrow> pydict" where
  "dict_set k v [] = [(k, v)]"
| "dict_set k v ((k', v') # d) =
     (if k' = k then (k, v) # d else (k', v') # dict_set k v d)"

fun truthy :: "cell \<Rightarrow> bool" where
  "truthy (Str s) = (s \<noteq> [])"
| "truthy Null = False"

fun format_value :: "cell \<Rightarrow> string" where
  "format_value (Str s) = s"
| "format_value Null = ''None''"

text \<open>
  A row of \<open>csv.DictReader\<close>: the dict of the header's column names, where a cell that
  a short line lacks is \<open>None\<close>, and, for a line longer than the header, the list of
  the surplus cells, which the reader stores under the key \<open>None\<close> after all columns.
\<close>

record csv_row =
  cells :: pydict
  extra :: "string list option"

text \<open>\<open>str(n)\<close> and the format \<open>{n:03d}\<close> for a non-negative integer.\<close>

definition digit_char :: "nat \<Rightarrow> char" where
  "digit_char d = char_of (48 + d)"

function decimal :: "nat \<Rightarrow> string" where
  "decimal n = (if n < 10 then [digit_char n] else decimal (n div 10) @ [digit_char (n mod 10)])"
  by pat_completeness auto
termination
  by (relation "measure (\<lambda>n. n)") auto

declare decimal.simps [simp del]

definition fmt_03d :: "nat \<Rightarrow> string" where
  "fmt_03d n = replicate (3 - length (decimal n)) (CHR ''0'') @ decimal n"

text \<open>
  \<open>json.dumps(d, ensure_ascii=False)\<close> for a row: in a string the quotation mark, the
  backslash and the control characters below U+0020 are escaped and every other
  character is written as it is; \<open>None\<close> is written \<open>null\<close>, as a value and as a key; a
  list is written in square brackets.
\<close>

definition hex_digit :: "nat \<Rightarrow> char" where
  "hex_digit d = (if d < 10 then char_of (48 + d) else char_of (87 + d))"

definition json_escape_char :: "char \<Rightarrow> string" where
  "json_escape_char c =
     (if c = CHR 0x22 then [CHR 0x5C, CHR 0x22]
      else if c = CHR 0x5C then [CHR 0x5C, CHR 0x5C]
      else if c = CHR 0x0A then [CHR 0x5C, CHR ''n'']
      else if c = CHR 0x0D then [CHR 0x5C, CHR ''r'']
      else if c = CHR 0x09 then [CHR 0x5C, CHR ''t'']
      else if c = CHR 0x08 then [CHR 0x5C, CHR ''b'']
      else if c = CHR 0x0C then [CHR 0x5C, CHR ''f'']
      else if (of_char c :: nat) < 32 then
        [CHR 0x5C, CHR ''u'', CHR ''0'', CHR ''0'',
         hex_digit ((of_char c :: nat) div 16), hex_digit ((of_char c :: nat) mod 16)]
      else [c])"

definition json_string :: "string \<Rightarrow> string" where
  "json_string s = CHR 0x22 # concat (map json_escape_char s) @ [CHR 0x22]"

fun join :: "string \<Rightarrow> string list \<Rightarrow> string" where
  "join sep [] = []"
| "join sep [x] = x"
| "join sep (x # y # ys) = x @ sep @ join sep (y # ys)"

fun json_value :: "cell \<Rightarrow> string" where
  "json_value (Str s) = json_string s"
| "json_value Null = ''null''"

definition json_list :: "string list \<Rightarrow> string" where
  "json_list xs = ''['' @ join '', '' (map json_string xs) @ '']''"

definition json_dumps :: "csv_row \<Rightarrow> string" where
  "json_dumps r =
     ''{'' @
     join '', ''
       (map (\<lambda>(k, v). json_string k @ '': '' @ json_value v) (cells r) @
        (case extra r of
           None \<Rightarrow> []
         | Some xs \<Rightarrow> [json_string ''null'' @ '': '' @ json_list xs])) @
     ''}''"

section \<open>The nested-shape document\<close>

text \<open>
  The parsed JSON document, restricted to the keys the code reads. Every key is
  optional (\<open>None\<close>: the key is absent); a key that is present holds a value of the kind
  the code uses it as: a string, an object, or a list of objects. Reading a field
  in the option monad is the subscript \<open>item['key']\<close>, with \<open>None\<close> as its \<open>KeyError\<close>.
\<close>

record article =
  Content_FR :: "string option"
  Content_EN :: "string option"

record appointee =
  Name :: "string option"
  Replacement :: "string option"

record act =
  Date :: "string option"
  Title_FR :: "string option"
  Title_EN :: "string option"
  Appointee :: "appointee option"
  Articles :: "article list option"

record document =
  Decrees :: "act list option"
  Orders :: "act list option"

section \<open>Output units\<close>

text \<open>
  A chunk is the dict with the key \<open>Chunk_ID\<close> and the optional keys \<open>Content (FR)\<close>
  and \<open>Content (EN)\<close> (\<open>None\<close>: the key is absent); a unit is the dict with the keys
  \<open>metadata\<close> and \<open>chunks\<close>.
\<close>

record chunk =
  Chunk_ID :: string
  Chunk_FR :: "cell option"
  Chunk_EN :: "cell option"

record output_unit =
  metadata :: pydict
  chunks :: "chunk list"

section \<open>Nested-shape extraction\<close>

text \<open>Lines 60 to 63: the names one act adds to \<open>all_sensitive_names\<close>.\<close>

definition item_sensitive_names :: "act \<Rightarrow> string list \<Rightarrow> string list option" where
  "item_sensitive_names item all_sensitive_names = do {
     has_name \<leftarrow> (if Appointee item \<noteq> None
                   then do { a \<leftarrow> Appointee item; Some (Name a \<noteq> None) }
                   else Some False);
     names1 \<leftarrow> (if has_name
                 then do { a \<leftarrow> Appointee item; n \<leftarrow> Name a; Some (all_sensitive_names @ [n]) }
                 else Some all_sensitive_names);
     has_replacement \<leftarrow>
       (if (case Appointee item of None \<Rightarrow> False | Some a \<Rightarrow> Replacement a \<noteq> None)
        then do { a \<leftarrow> Appointee item; r \<leftarrow> Replacement a; Some (r \<noteq> []) }
        else Some False);
     (if has_replacement
      then do { a \<leftarrow> Appointee item; r \<leftarrow> Replacement a; Some (names1 @ [r]) }
      else Some names1)
   }"

fun collect_names :: "act list \<Rightarrow> string list \<Rightarrow> string list option" where
  "collect_names [] all_sensitive_names = Some all_sensitive_names"
| "collect_names (item # items) all_sensitive_names = do {
     names \<leftarrow> item_sensitive_names item all_sensitive_names;
     collect_names items names
   }"

text \<open>Lines 56 to 63: the pass over both collections that runs before any act is processed.\<close>

definition collect_all_sensitive_names :: "document \<Rightarrow> string list option" where
  "collect_all_sensitive_names data = do {
     names \<leftarrow> (if Decrees data \<noteq> None
                then do { items \<leftarrow> Decrees data; collect_names items [] }
                else Some []);
     (if Orders data \<noteq> None
      then do { items \<leftarrow> Orders data; collect_names items names }
      else Some names)
   }"

text \<open>The inner loop over the articles of one act; \<open>j\<close> is the index of \<open>enumerate\<close>.\<close>

fun article_chunks :: "string list \<Rightarrow> nat \<Rightarrow> article list \<Rightarrow> chunk list" where
  "article_chunks all_sensitive_names j [] = []"
| "article_chunks all_sensitive_names j (article # articles) =
     \<lparr>Chunk_ID = fmt_03d (j + 1),
      Chunk_FR = Some (Str (anonymize_text
                   (case Content_FR article of None \<Rightarrow> [] | Some s \<Rightarrow> s) all_sensitive_names)),
      Chunk_EN = Some (Str (anonymize_text
                   (case Content_EN article of None \<Rightarrow> [] | Some s \<Rightarrow> s) all_sensitive_names))\<rparr>
     # article_chunks all_sensitive_names (j + 1) articles"

text \<open>
  The body of the loop over one collection: the unit built for one act. Lines 66 to
  104 (Decrees) and 107 to 143 (Orders) are the same text up to the value of \<open>Type\<close>,
  which is the parameter \<open>type_label\<close> here.
\<close>

definition act_unit :: "string \<Rightarrow> string list \<Rightarrow> string \<Rightarrow> act \<Rightarrow> output_unit option" where
  "act_unit type_label all_sensitive_names original_file_name item = do {
     let unit_metadata =
       [(''Source'', Str original_file_name),
        (''Type'', Str type_label),
        (''Date'', Str (case Date item of None \<Rightarrow> ''N/A'' | Some v \<Rightarrow> v)),
        (''Title (FR)'', Str (case Title_FR item of None \<Rightarrow> ''N/A'' | Some v \<Rightarrow> v)),
        (''Title (EN)'', Str (case Title_EN item of None \<Rightarrow> ''N/A'' | Some v \<Rightarrow> v))];
     unit_chunks \<leftarrow>
       (if Articles item \<noteq> None
        then do { articles \<leftarrow> Articles item; Some (article_chunks all_sensitive_names 0 articles) }
        else Some []);
     let processed_appointee_name =
       (case Appointee item of None \<Rightarrow> ''N/A''
        | Some a \<Rightarrow> (case Name a of None \<Rightarrow> ''N/A'' | Some n \<Rightarrow> n));
     let unit_metadata =
       (if processed_appointee_name \<noteq> ''N/A''
        then dict_set ''Appointee Name'' (Str ANONYMIZATION_PLACEHOLDER) unit_metadata
        else dict_set ''Appointee Name'' (Str processed_appointee_name) unit_metadata);
     Some \<lparr>metadata = unit_metadata, chunks = unit_chunks\<rparr>
   }"

fun process_acts ::
  "string \<Rightarrow> string list \<Rightarrow> string \<Rightarrow> act list \<Rightarrow> output_unit list \<Rightarrow> output_unit list option"
where
  "process_acts type_label all_sensitive_names original_file_name [] filtered_output_units =
     Some filtered_output_units"
| "process_acts type_label all_sensitive_names original_file_name (item # items)
       filtered_output_units = do {
     u \<leftarrow> act_unit type_label all_sensitive_names original_file_name item;
     process_acts type_label all_sensitive_names original_file_name items
       (filtered_output_units @ [u])
   }"

definition filter_and_chunk_json_data :: "document \<Rightarrow> string \<Rightarrow> output_unit list option" where
  "filter_and_chunk_json_data data original_file_name = do {
     all_sensitive_names \<leftarrow> collect_all_sensitive_names data;
     units \<leftarrow> (if Decrees data \<noteq> None
                then do { items \<leftarrow> Decrees data;
                          process_acts ''Decree'' all_sensitive_names original_file_name items [] }
                else Some []);
     (if Orders data \<noteq> None
      then do { items \<leftarrow> Orders data;
                process_acts ''Order'' all_sensitive_names original_file_name items units }
      else Some units)
   }"

section \<open>Flat-shape extraction\<close>

text \<open>
  Lines 165 to 168 collect the \<open>Name\<close> cells of all rows that are present and true
  in a condition, that is, non-empty strings; a \<open>None\<close> cell is not collected.
\<close>

fun collect_names_csv :: "csv_row list \<Rightarrow> string list \<Rightarrow> string list option" where
  "collect_names_csv [] sensitive_names_csv = Some sensitive_names_csv"
| "collect_names_csv (row # rows) sensitive_names_csv = do {
     named \<leftarrow> (if has_key ''Name'' (cells row)
                then do { v \<leftarrow> subscript (cells row) ''Name''; Some (truthy v) }
                else Some False);
     names \<leftarrow> (if named
                then do { v \<leftarrow> subscript (cells row) ''Name'';
                          Some (case v of Str s \<Rightarrow> sensitive_names_csv @ [s]
                                | Null \<Rightarrow> sensitive_names_csv) }
                else Some sensitive_names_csv);
     collect_names_csv rows names
   }"

text \<open>
  The call \<open>anonymize_text(v, names)\<close> of line 193 on a cell. A string goes through
  the passes. \<open>None\<close> comes back as it is when there is no name; with a name, the first
  \<open>re.sub\<close> raises \<open>TypeError\<close>, which is the result \<open>None\<close> here.
\<close>

fun anonymize_cell :: "cell \<Rightarrow> string list \<Rightarrow> cell option" where
  "anonymize_cell (Str s) sensitive_names = Some (Str (anonymize_text s sensitive_names))"
| "anonymize_cell Null [] = Some Null"
| "anonymize_cell Null (name # sensitive_names) = None"

text \<open>Lines 172 to 213: the body of the loop over the rows, for the row with index \<open>i\<close>.\<close>

definition row_unit :: "string list \<Rightarrow> string \<Rightarrow> nat \<Rightarrow> csv_row \<Rightarrow> output_unit option" where
  "row_unit sensitive_names_csv original_file_name i row = do {
     let unit_metadata =
       [(''Source'', Str original_file_name), (''Type'', Str ''CSV_Row''),
        (''Row_ID'', Str (decimal (i + 1)))];
     unit_metadata \<leftarrow>
       (if has_key ''Date'' (cells row)
        then do { v \<leftarrow> subscript (cells row) ''Date''; Some (dict_set ''Date'' v unit_metadata) }
        else Some unit_metadata);
     unit_metadata \<leftarrow>
       (if has_key ''Subject'' (cells row)
        then do { v \<leftarrow> subscript (cells row) ''Subject''; Some (dict_set ''Title'' v unit_metadata) }
        else Some unit_metadata);
     let processed_row_content = row;
     let processed_row_content =
       (if has_key ''Name'' (cells processed_row_content)
        then processed_row_content
               \<lparr>cells := dict_set ''Name'' (Str ANONYMIZATION_PLACEHOLDER)
                           (cells processed_row_content)\<rparr>
        else processed_row_content);
     processed_row_content \<leftarrow>
       (if has_key ''Text_Content'' (cells processed_row_content)
        then do { v \<leftarrow> subscript (cells processed_row_content) ''Text_Content'';
                  a \<leftarrow> anonymize_cell v sensitive_names_csv;
                  Some (processed_row_content
                          \<lparr>cells := dict_set ''Text_Content'' a (cells processed_row_content)\<rparr>) }
        else Some processed_row_content);
     unit_chunks \<leftarrow>
       (if has_key ''Text_Content'' (cells processed_row_content)
        then do { v \<leftarrow> subscript (cells processed_row_content) ''Text_Content'';
                  Some [\<lparr>Chunk_ID = ''001'', Chunk_FR = None, Chunk_EN = Some v\<rparr>] }
        else Some [\<lparr>Chunk_ID = ''001'', Chunk_FR = None,
                     Chunk_EN = Some (Str (''CSV Row data: '' @
                                  json_dumps processed_row_content))\<rparr>]);
     Some \<lparr>metadata = unit_metadata, chunks = unit_chunks\<rparr>
   }"

text \<open>Lines 171 to 213: the loop over the rows; \<open>i\<close> is the index of \<open>enumerate\<close>.\<close>

fun process_rows ::
  "string list \<Rightarrow> string \<Rightarrow> nat \<Rightarrow> csv_row list \<Rightarrow> output_unit list \<Rightarrow> output_unit list option"
where
  "process_rows sensitive_names_csv original_file_name i [] filtered_output_units =
     Some filtered_output_units"
| "process_rows sensitive_names_csv original_file_name i (row # rows) filtered_output_units = do {
     u \<leftarrow> row_unit sensitive_names_csv original_file_name i row;
     process_rows sensitive_names_csv original_file_name (i + 1) rows
       (filtered_output_units @ [u])
   }"

definition filter_and_chunk_csv_data :: "csv_row list \<Rightarrow> string \<Rightarrow> output_unit list option" where
  "filter_and_chunk_csv_data data original_file_name = do {
     sensitive_names_csv \<leftarrow> collect_names_csv data [];
     process_rows sensitive_names_csv original_file_name 0 data []
   }"

section \<open>The unit writer\<close>

text \<open>
  The effects of the program: the directories handed to \<open>os.makedirs\<close>, the files
  written (path and final content, in the order they were opened), and the messages
  printed. The messages are Chinese sentences in the source; each constructor stands
  for one \<open>print\<close> statement and carries the values formatted into it. Creating a
  directory and writing a file are taken to succeed.
\<close>

datatype message =
  Msg_processing string
| Msg_unsupported string
| Msg_written string
| Msg_success nat string
| Msg_no_units string
| Msg_error string

record world =
  made_dirs :: "string list"
  written :: "(string \<times> string) list"
  printed :: "message list"

text \<open>What a call hands back: \<open>None\<close> for a function without a \<open>return\<close> statement.\<close>

datatype py_value = PyNone | PyInt nat

definition OUTPUT_DIR :: string where
  "OUTPUT_DIR = ''filtered_and_chunked_data''"

text \<open>\<open>os.path.join\<close> of two components on a POSIX system.\<close>

definition path_join :: "string \<Rightarrow> string \<Rightarrow> string" where
  "path_join a b =
     (if b \<noteq> [] \<and> hd b = CHR ''/'' then b
      else if a = [] \<or> last a = CHR ''/'' then a @ b
      else a @ ''/'' @ b)"

text \<open>Lines 234 to 236: the \<open>f.write\<close> calls for the metadata; \<open>f\<close> is the text written so far.\<close>

fun write_metadata :: "pydict \<Rightarrow> string \<Rightarrow> string" where
  "write_metadata [] f = f"
| "write_metadata ((key, value) # items) f =
     write_metadata items (f @ key @ '': '' @ format_value value @ [CHR 0x0A])"

text \<open>Lines 239 to 245: the \<open>f.write\<close> calls for the chunks.\<close>

fun write_chunks :: "chunk list \<Rightarrow> string \<Rightarrow> string" where
  "write_chunks [] f = f"
| "write_chunks (chunk # rest) f =
     (let f = f @ ''Chunk ['' @ Chunk_ID chunk @ '']:'' @ [CHR 0x0A];
          f = (case Chunk_FR chunk of
                 Some v \<Rightarrow>
                   if truthy v then f @ ''Content (FR): '' @ format_value v @ [CHR 0x0A] else f
               | None \<Rightarrow> f);
          f = (case Chunk_EN chunk of
                 Some v \<Rightarrow>
                   if truthy v then f @ ''Content (EN): '' @ format_value v @ [CHR 0x0A] else f
               | None \<Rightarrow> f)
      in write_chunks rest (f @ [CHR 0x0A]))"

definition unit_file_text :: "output_unit \<Rightarrow> string" where
  "unit_file_text u = write_chunks (chunks u) (write_metadata (metadata u) [] @ [CHR 0x0A])"

text \<open>Lines 228 to 247: the loop over the units; \<open>i\<close> is the index of \<open>enumerate\<close>.\<close>

fun write_units :: "string \<Rightarrow> string \<Rightarrow> nat \<Rightarrow> output_unit list \<Rightarrow> world \<Rightarrow> world" where
  "write_units full_output_path output_sub_dir i [] w = w"
| "write_units full_output_path output_sub_dir i (u # units) w =
     (let output_filename =
            path_join full_output_path (output_sub_dir @ ''_unit_'' @ fmt_03d (i + 1) @ ''.txt'')
      in write_units full_output_path output_sub_dir (i + 1) units
           (w\<lparr>written := written w @ [(output_filename, unit_file_text u)],
              printed := printed w @ [Msg_written output_filename]\<rparr>))"

definition write_chunks_to_files :: "output_unit list \<Rightarrow> string \<Rightarrow> world \<Rightarrow> py_value \<times> world" where
  "write_chunks_to_files chunks_data output_sub_dir w =
     (let full_output_path = path_join OUTPUT_DIR output_sub_dir;
          w = w\<lparr>made_dirs := made_dirs w @ [full_output_path]\<rparr>
      in (PyNone, write_units full_output_path output_sub_dir 0 chunks_data w))"

section \<open>The dispatcher\<close>

text \<open>\<open>os.path.basename\<close>, the extension of \<open>os.path.splitext\<close>, and the two string methods used.\<close>

definition basename :: "string \<Rightarrow> string" where
  "basename p = rev (takeWhile (\<lambda>c. c \<noteq> CHR ''/'') (rev p))"

definition splitext_ext :: "string \<Rightarrow> string" where
  "splitext_ext p =
     (let b = basename p;
          suffix = rev (takeWhile (\<lambda>c. c \<noteq> CHR ''.'') (rev b));
          stem = take (length b - length suffix - 1) b
      in if CHR ''.'' \<notin> set b \<or> (\<forall>c \<in> set stem. c = CHR ''.'') then [] else CHR ''.'' # suffix)"

definition str_lower :: "string \<Rightarrow> string" where
  "str_lower s = map to_lower s"

definition dots_to_underscores :: "string \<Rightarrow> string" where
  "dots_to_underscores s = map (\<lambda>c. if c = CHR ''.'' then CHR ''_'' else c) s"

text \<open>
  \<open>algorithm_main\<close>. The two parsers are parameters: \<open>json_load p\<close> and \<open>csv_rows p\<close> give
  what \<open>json.load\<close> and \<open>csv.DictReader\<close> return for the file at \<open>p\<close>, or \<open>None\<close> when
  opening or parsing raises. Every exception inside the \<open>try\<close> block, a \<open>KeyError\<close> or
  \<open>TypeError\<close> of an extractor included, ends in the \<open>except\<close> branch, which prints and
  returns.
\<close>

definition algorithm_main ::
  "(string \<Rightarrow> document option) \<Rightarrow> (string \<Rightarrow> csv_row list option) \<Rightarrow> string \<Rightarrow> world \<Rightarrow> world"
where
  "algorithm_main json_load csv_rows input_file_path w0 =
     (let w = w0\<lparr>printed := printed w0 @ [Msg_processing input_file_path]\<rparr>;
          file_extension = str_lower (splitext_ext input_file_path);
          original_file_name = basename input_file_path;
          input_data_identifier = dots_to_underscores original_file_name;
          failed = w\<lparr>printed := printed w @ [Msg_error input_file_path]\<rparr>;
          finish = (\<lambda>processed_units.
            if processed_units \<noteq> [] then
              (let w1 = snd (write_chunks_to_files processed_units input_data_identifier w)
               in w1\<lparr>printed := printed w1 @
                     [Msg_success (length processed_units)
                        (path_join OUTPUT_DIR input_data_identifier)]\<rparr>)
            else w\<lparr>printed := printed w @ [Msg_no_units input_file_path]\<rparr>)
      in if file_extension = ''.json'' then
           (case json_load input_file_path of
              None \<Rightarrow> failed
            | Some raw_data \<Rightarrow>
                (case filter_and_chunk_json_data raw_data original_file_name of
                   None \<Rightarrow> failed
                 | Some processed_units \<Rightarrow> finish processed_units))
         else if file_extension = ''.csv'' then
           (case csv_rows input_file_path of
              None \<Rightarrow> failed
            | Some raw_data \<Rightarrow>
                (case filter_and_chunk_csv_data raw_data original_file_name of
                   None \<Rightarrow> failed
                 | Some processed_units \<Rightarrow> finish processed_units))
         else w\<lparr>printed := printed w @ [Msg_unsupported file_extension]\<rparr>)"

section \<open>Notions used to state the claims about extraction\<close>

text \<open>The acts of a collection; a missing collection has none.\<close>

definition collection :: "'a list option \<Rightarrow> 'a list" where
  "collection c = (case c of None \<Rightarrow> [] | Some xs \<Rightarrow> xs)"

text \<open>
  The names one act contributes in the words of the specification: the appointee
  name if present, then the replacement name if present and non-empty.
\<close>

definition names_of_act :: "act \<Rightarrow> string list" where
  "names_of_act item =
     (case Appointee item of
        None \<Rightarrow> []
      | Some a \<Rightarrow>
          (case Name a of None \<Rightarrow> [] | Some n \<Rightarrow> [n]) @
          (case Replacement a of None \<Rightarrow> [] | Some r \<Rightarrow> if r = [] then [] else [r]))"

text \<open>All acts of a document, Decrees first, and the names they contribute.\<close>

definition document_acts :: "document \<Rightarrow> act list" where
  "document_acts data = collection (Decrees data) @ collection (Orders data)"

definition document_names :: "document \<Rightarrow> string list" where
  "document_names data = concat (map names_of_act (document_acts data))"

text \<open>The number a string of decimal digits denotes.\<close>

definition digits_value :: "string \<Rightarrow> nat" where
  "digits_value s = foldl (\<lambda>a c. 10 * a + (of_char c - 48)) 0 s"



section \<open>The file layout in the words of the specification\<close>

text \<open>
  The lines of a chunk block: the header naming the chunk id, the French line if that
  content is present and non-empty, the English line likewise, and an empty line.
  The lines of a unit: one \<open>key: value\<close> line per metadata entry in insertion order
  (the value as an f-string writes it),
  an empty line, then the chunk blocks in order. \<open>lines_text\<close> ends every line with a
  newline; \<open>unit_path d j\<close> is the path of the file for the unit at index \<open>j\<close>.
\<close>

definition chunk_lines :: "chunk \<Rightarrow> string list" where
  "chunk_lines c =
     [''Chunk ['' @ Chunk_ID c @ '']:''] @
     (case Chunk_FR c of
        Some (Str s) \<Rightarrow> if s \<noteq> [] then [''Content (FR): '' @ s] else []
      | _ \<Rightarrow> []) @
     (case Chunk_EN c of
        Some (Str s) \<Rightarrow> if s \<noteq> [] then [''Content (EN): '' @ s] else []
      | _ \<Rightarrow> []) @
     ['''']"

definition unit_lines :: "output_unit \<Rightarrow> string list" where
  "unit_lines u =
     map (\<lambda>(key, value). key @ '': '' @ format_value value) (metadata u) @ [''''] @
     concat (map chunk_lines (chunks u))"

definition lines_text :: "string list \<Rightarrow> string" where
  "lines_text ls = concat (map (\<lambda>l. l @ [CHR 0x0A]) ls)"

definition unit_path :: "string \<Rightarrow> nat \<Rightarrow> string" where
  "unit_path d j =
     path_join (path_join OUTPUT_DIR d) (d @ ''_unit_'' @ fmt_03d (j + 1) @ ''.txt'')"

section \<open>Verbatim occurrence\<close>



section \<open>Rows as dicts\<close>



section \<open>Evaluation rules for concrete characters\<close>

lemma is_word_char_Char [simp]:
  "is_word_char (Char b0 b1 b2 b3 b4 b5 b6 b7) =
     (let n = (of_char (Char b0 b1 b2 b3 b4 b5 b6 b7) :: nat) in
        (48 \<le> n \<and> n \<le> 57) \<or> (65 \<le> n \<and> n \<le> 90) \<or> n = 95 \<or> (97 \<le> n \<and> n \<le> 122) \<or>
        n = 170 \<or> n = 178 \<or> n = 179 \<or> n = 181 \<or> n = 185 \<or> n = 186 \<or>
        (188 \<le> n \<and> n \<le> 190) \<or> (192 \<le> n \<and> n \<le> 214) \<or> (216 \<le> n \<and> n \<le> 246) \<or>
        248 \<le> n)"
  by (simp only: is_word_char_def)

section \<open>Facts about the character tables\<close>

lemma of_char_to_lower:
  "(of_char (to_lower c) :: nat) =
     (if (65 \<le> (of_char c :: nat) \<and> (of_char c :: nat) \<le> 90) \<or> (192 \<le> (of_char c :: nat) \<and> (of_char c :: nat) \<le> 214) \<or> (216 \<le> (of_char c :: nat) \<and> (of_char c :: nat) \<le> 222)
        then of_char c + 32 else of_char c)"
proof -
  have "(of_char c :: nat) \<le> 222 \<Longrightarrow> (of_char c + 32 :: nat) mod 256 = of_char c + 32"
    by simp
  then show ?thesis
    by (simp add: to_lower_def Let_def)
qed

lemma word_code_shift:
  assumes "(65 \<le> n \<and> n \<le> 90) \<or> (192 \<le> n \<and> n \<le> 214) \<or> (216 \<le> n \<and> n \<le> 222)"
  shows "word_code (n + 32) \<and> word_code n"
proof -
  consider "65 \<le> n \<and> n \<le> 90" | "192 \<le> n \<and> n \<le> 214" | "216 \<le> n \<and> n \<le> 222"
    using assms by blast
  then show ?thesis
  proof cases
    case 1
    then have "97 \<le> n + 32 \<and> n + 32 \<le> 122" by simp
    with 1 show ?thesis unfolding word_code_def by blast
  next
    case 2
    then have "216 \<le> n + 32 \<and> n + 32 \<le> 246" by simp
    with 2 show ?thesis unfolding word_code_def by blast
  next
    case 3
    then have "248 \<le> n + 32" and "n \<le> 246" by simp_all
    with 3 show ?thesis unfolding word_code_def by blast
  qed
qed

lemma is_word_char_to_lower: "is_word_char (to_lower c) = is_word_char c"
proof -
  have w: "\<And>d. is_word_char d = word_code (of_char d)"
    by (simp only: is_word_char_def word_code_def Let_def)
  show ?thesis
    unfolding w of_char_to_lower using word_code_shift [of "of_char c"]
    by (simp split: if_splits)
qed

lemma ci_eq_word: "ci_eq p c \<Longrightarrow> is_word_char p = is_word_char c"
  by (metis ci_eq_def is_word_char_to_lower)

lemma to_lower_eq_fixed:
  assumes "to_lower p = c" and "(of_char c :: nat) = n" and "n < 97 \<or> (122 < n \<and> n < 224) \<or> n = 247 \<or> n = 255"
  shows "p = c"
proof -
  have "(of_char (to_lower p) :: nat) = n" using assms by simp
  then have "\<not> ((65 \<le> (of_char p :: nat) \<and> (of_char p :: nat) \<le> 90) \<or> (192 \<le> (of_char p :: nat) \<and> (of_char p :: nat) \<le> 214) \<or> (216 \<le> (of_char p :: nat) \<and> (of_char p :: nat) \<le> 222))"
    using assms(3) unfolding of_char_to_lower by (auto split: if_splits)
  then have "to_lower p = p" by (auto simp: to_lower_def Let_def)
  with assms(1) show ?thesis by simp
qed

lemma ci_eq_lbracket: "ci_eq p (CHR ''['') \<Longrightarrow> p = CHR ''[''"
  using to_lower_eq_fixed [of p "CHR ''[''" 91] by (simp add: ci_eq_def to_lower_def)

lemma ci_eq_rbracket: "ci_eq p (CHR '']'') \<Longrightarrow> p = CHR '']''"
  using to_lower_eq_fixed [of p "CHR '']''" 93] by (simp add: ci_eq_def to_lower_def)

section \<open>Facts about the substitution scan\<close>

lemma match_tail_re_sub:
  "match_tail pw q (re_sub_from pw m t) \<Longrightarrow> CHR ''['' \<notin> set q \<Longrightarrow> match_tail pw q t"
proof (induction q arbitrary: pw t)
  case Nil
  show ?case
  proof (cases "match_at pw m t")
    case True
    then show ?thesis by (simp add: match_at_def)
  next
    case False
    then show ?thesis using Nil.prems(1) by (cases t) (simp_all add: word_boundary_def)
  qed
next
  case (Cons p ps)
  have nb: "\<not> ci_eq p (CHR ''['')" using Cons.prems(2) ci_eq_lbracket by auto
  show ?case
  proof (cases t)
    case Nil
    then show ?thesis using Cons.prems(1) nb by (auto simp: ANONYMIZATION_PLACEHOLDER_def split: if_splits)
  next
    case t: (Cons c cs)
    show ?thesis
    proof (cases "match_at pw m (c # cs)")
      case True
      then show ?thesis using Cons.prems(1) nb t by (auto simp: ANONYMIZATION_PLACEHOLDER_def split: if_splits)
    next
      case False
      with Cons.prems(1) t have pc: "ci_eq p c" and mt: "match_tail (is_word_char c) ps (re_sub_from (is_word_char c) m cs)"
        by auto
      have "match_tail (is_word_char c) ps cs"
        using Cons.IH [OF mt] Cons.prems(2) by auto
      then show ?thesis using pc t by simp
    qed
  qed
qed

lemma match_tail_word_block:
  "match_tail pw q (ws @ CHR '']'' # rest) \<Longrightarrow> list_all is_word_char ws \<Longrightarrow>
   (q = [] \<longrightarrow> pw) \<Longrightarrow> CHR '']'' \<notin> set q \<Longrightarrow> ci_equal q ws"
proof (induction ws arbitrary: pw q)
  case Nil
  then show ?case using ci_eq_rbracket by (cases q) auto
next
  case (Cons w ws)
  show ?case
  proof (cases q)
    case Nil
    then show ?thesis using Cons.prems by (simp add: word_boundary_def)
  next
    case q: (Cons p ps)
    with Cons.prems have pc: "ci_eq p w" and mt: "match_tail (is_word_char w) ps (ws @ CHR '']'' # rest)"
      by auto
    have "ci_equal ps ws"
      using Cons.IH [OF mt] Cons.prems q by auto
    then show ?thesis using pc q by simp
  qed
qed

lemma has_match_word_block:
  "has_match True n (ws @ CHR '']'' # rest) \<Longrightarrow> list_all is_word_char ws \<Longrightarrow>
   n \<noteq> [] \<Longrightarrow> CHR '']'' \<notin> set n \<Longrightarrow> has_match False n rest"
proof (induction ws)
  case Nil
  have b: "\<not> is_word_char (CHR '']'')" by simp
  from Nil obtain p ps where n: "n = p # ps" by (cases n) auto
  have "\<not> ci_eq p (CHR '']'')" using Nil.prems(4) n ci_eq_rbracket by auto
  then show ?case using Nil.prems(1) n b by (simp add: match_at_def)
next
  case (Cons w ws)
  then show ?case by (auto simp: match_at_def word_boundary_def)
qed

lemma has_match_placeholder:
  assumes "plain_name n" and "has_match po n (ANONYMIZATION_PLACEHOLDER @ rest)"
  shows "has_match False n rest"
proof -
  obtain p ps where n: "n = p # ps" using assms(1) by (cases n) (auto simp: plain_name_def)
  have nl: "\<not> ci_eq p (CHR ''['')" using assms(1) n ci_eq_lbracket by (auto simp: plain_name_def)
  have nr: "CHR '']'' \<notin> set n" using assms(1) by (simp add: plain_name_def)
  have ws: "list_all is_word_char ''ANONYMIZED_PERSON''" by simp
  have split: "ANONYMIZATION_PLACEHOLDER @ rest = CHR ''['' # ''A'' @ (''NONYMIZED_PERSON'' @ CHR '']'' # rest)"
    by (simp add: ANONYMIZATION_PLACEHOLDER_def)
  have core: "''A'' @ (''NONYMIZED_PERSON'' @ CHR '']'' # rest) = ''ANONYMIZED_PERSON'' @ CHR '']'' # rest"
    by simp
  have "\<not> match_at po n (CHR ''['' # ''A'' @ (''NONYMIZED_PERSON'' @ CHR '']'' # rest))"
    using nl n by (simp add: match_at_def)
  then have 1: "has_match False n (''A'' @ (''NONYMIZED_PERSON'' @ CHR '']'' # rest))"
    using assms(2) unfolding split by simp
  have "\<not> match_at False n (''ANONYMIZED_PERSON'' @ CHR '']'' # rest)"
  proof
    assume "match_at False n (''ANONYMIZED_PERSON'' @ CHR '']'' # rest)"
    then have "match_tail False n (''ANONYMIZED_PERSON'' @ CHR '']'' # rest)"
      by (simp add: match_at_def)
    then have "ci_equal n ''ANONYMIZED_PERSON''"
      using match_tail_word_block [OF _ ws] n nr by blast
    then show False using assms(1) by (simp add: plain_name_def)
  qed
  then have "has_match True n (''NONYMIZED_PERSON'' @ CHR '']'' # rest)"
    using 1 unfolding core by simp
  then show ?thesis
    using has_match_word_block [of n "''NONYMIZED_PERSON''" rest] n nr by simp
qed

lemma match_tail_end:
  "match_tail pw m s \<Longrightarrow> m \<noteq> [] \<Longrightarrow>
   length m \<le> length s \<and>
   word_boundary (is_word_char (last (take (length m) s))) (drop (length m) s)"
proof (induction pw m s rule: match_tail.induct)
  case (1 pw s)
  then show ?case by simp
next
  case (2 pw p ps)
  then show ?case by simp
next
  case (3 pw p ps c cs)
  show ?case
  proof (cases ps)
    case Nil
    then show ?thesis using 3 by simp
  next
    case (Cons a list)
    then have "length ps \<le> length cs \<and>
      word_boundary (is_word_char (last (take (length ps) cs))) (drop (length ps) cs)"
      using 3 by simp
    moreover have "take (length ps) cs \<noteq> []" using Cons calculation by auto
    ultimately show ?thesis by simp
  qed
qed

lemma has_match_drop:
  "has_match (is_word_char (last (take k t))) n (drop k t) \<Longrightarrow> 0 < k \<Longrightarrow> k \<le> length t \<Longrightarrow>
   has_match pw n t"
proof (induction t arbitrary: k pw)
  case Nil
  then show ?case by simp
next
  case (Cons c cs)
  then obtain k' where k: "k = Suc k'" by (cases k) auto
  show ?case
  proof (cases k')
    case 0
    then show ?thesis using Cons.prems k by simp
  next
    case (Suc j)
    then have "take k' cs \<noteq> []" using Cons.prems k by auto
    then have "has_match (is_word_char (last (take k' cs))) n (drop k' cs)"
      using Cons.prems k by simp
    then have "has_match (is_word_char c) n cs"
      using Cons.IH [of k' "is_word_char c"] Suc Cons.prems k by simp
    then show ?thesis by simp
  qed
qed

lemma re_sub_no_new_match:
  "plain_name n \<Longrightarrow> ctx_ok pi po t \<Longrightarrow> has_match po n (re_sub_from pi m t) \<Longrightarrow>
   n \<noteq> m \<and> has_match pi n t"
proof (induction pi m t arbitrary: po rule: re_sub_from.induct)
  case (1 pw name)
  have ne: "n \<noteq> []" using "1.prems"(1) by (simp add: plain_name_def)
  show ?case
  proof (cases "match_at pw name []")
    case True
    then have "has_match False n []"
      using "1.prems" has_match_placeholder [of n po "[]"] by simp
    then show ?thesis using ne by (cases n) (simp_all add: match_at_def)
  next
    case False
    then have "re_sub_from pw name [] = []" by simp
    then have "match_tail po n []" using "1.prems"(3) by (simp add: match_at_def)
    then show ?thesis using ne by (cases n) auto
  qed
next
  case (2 pw name c cs)
  have ne: "n \<noteq> []" and nl: "CHR ''['' \<notin> set n"
    using "2.prems"(1) by (simp_all add: plain_name_def)
  have same: "ctx_ok (is_word_char c) (is_word_char c) cs" by (simp add: ctx_ok_def)
  have copy: "n \<noteq> name \<and> has_match pw n (c # cs)"
    if b: "word_boundary pw (c # cs)" and nm: "name = [] \<or> \<not> match_at pw name (c # cs)"
      and m: "match_at po' n (c # re_sub_from (is_word_char c) name cs)" for po'
  proof -
    from m have mt: "match_tail po' n (c # re_sub_from (is_word_char c) name cs)"
      by (simp add: match_at_def)
    then obtain p ps where n: "n = p # ps" and pc: "ci_eq p c"
      and t: "match_tail (is_word_char c) ps (re_sub_from (is_word_char c) name cs)"
      using ne by (cases n) auto
    have "match_tail (is_word_char c) ps cs"
      using match_tail_re_sub [OF t] nl n by auto
    then have "match_at pw n (c # cs)"
      using b pc n by (simp add: match_at_def)
    then show ?thesis using nm ne by auto
  qed
  show ?case
  proof (cases "match_at pw name (c # cs)")
    case True
    note matched = True
    then have b: "word_boundary pw (c # cs)" by (simp add: match_at_def)
    show ?thesis
    proof (cases "name = []")
      case True
      have "has_match False n (c # re_sub_from (is_word_char c) name cs)"
        using "2.prems" matched True
          has_match_placeholder [of n po "c # re_sub_from (is_word_char c) name cs"] by simp
      then consider "match_at False n (c # re_sub_from (is_word_char c) name cs)"
        | "has_match (is_word_char c) n (re_sub_from (is_word_char c) name cs)" by auto
      then show ?thesis
      proof cases
        case 1
        then show ?thesis using copy [OF b _ 1] True by simp
      next
        case 2
        then have "n \<noteq> name \<and> has_match (is_word_char c) n cs"
          using "2.IH"(1) [OF matched True "2.prems"(1) same 2] by blast
        then show ?thesis by simp
      qed
    next
      case False
      let ?k = "length name"
      let ?pi = "is_word_char (last (take ?k (c # cs)))"
      have mt: "match_tail pw name (c # cs)" using matched by (simp add: match_at_def)
      from match_tail_end [OF mt False]
      have len: "?k \<le> length (c # cs)" and wb: "word_boundary ?pi (drop ?k (c # cs))" by simp_all
      have ok: "ctx_ok ?pi False (drop ?k (c # cs))"
        using wb by (simp add: ctx_ok_def)
      have "has_match False n (re_sub_from ?pi name (drop ?k (c # cs)))"
        using "2.prems" matched False
          has_match_placeholder [of n po "re_sub_from ?pi name (drop ?k (c # cs))"] by simp
      then have r: "n \<noteq> name \<and> has_match ?pi n (drop ?k (c # cs))"
        using "2.IH"(2) [OF matched False "2.prems"(1) ok] by blast
      then have "has_match pw n (c # cs)"
        using has_match_drop [of ?k "c # cs" n pw] len False by simp
      then show ?thesis using r by simp
    qed
  next
    case False
    then have out: "re_sub_from pw name (c # cs) = c # re_sub_from (is_word_char c) name cs"
      by simp
    from "2.prems"(3) consider "match_at po n (c # re_sub_from (is_word_char c) name cs)"
      | "has_match (is_word_char c) n (re_sub_from (is_word_char c) name cs)"
      unfolding out by auto
    then show ?thesis
    proof cases
      case 1
      then have wb: "word_boundary po (c # re_sub_from (is_word_char c) name cs)"
        by (simp add: match_at_def)
      have "word_boundary pw (c # cs)"
        using "2.prems"(2) wb by (auto simp: ctx_ok_def word_boundary_def)
      then show ?thesis using copy [of po] False 1 by simp
    next
      case 2
      then have "n \<noteq> name \<and> has_match (is_word_char c) n cs"
        using "2.IH"(3) [OF False "2.prems"(1) same 2] by blast
      then show ?thesis by simp
    qed
  qed
qed

lemma re_sub_from_unchanged: "\<not> has_match pw m t \<Longrightarrow> re_sub_from pw m t = t"
  by (induction pw m t rule: re_sub_from.induct) auto

lemma anonymize_text_unchanged:
  "\<forall>n \<in> set names. \<not> has_match False n text \<Longrightarrow> anonymize_text text names = text"
  by (induction names) (simp_all add: re_sub_def re_sub_from_unchanged)

lemma re_sub_removes:
  assumes "plain_name n" shows "\<not> has_match False n (re_sub n text)"
  using re_sub_no_new_match [OF assms, of False False "text" n]
  by (auto simp: re_sub_def ctx_ok_def)

lemma re_sub_keeps_free:
  assumes "plain_name n" and "\<not> has_match False n text"
  shows "\<not> has_match False n (re_sub m text)"
  using re_sub_no_new_match [OF assms(1), of False False "text" m] assms(2)
  by (auto simp: re_sub_def ctx_ok_def)

lemma anonymize_text_keeps_free:
  "plain_name n \<Longrightarrow> \<not> has_match False n text \<Longrightarrow> \<not> has_match False n (anonymize_text text names)"
  by (induction names arbitrary: "text") (simp_all add: re_sub_keeps_free)

lemma anonymize_text_removes:
  "plain_name n \<Longrightarrow> n \<in> set names \<Longrightarrow> \<not> has_match False n (anonymize_text text names)"
proof (induction names arbitrary: "text")
  case Nil
  then show ?case by simp
next
  case (Cons m ms)
  show ?case
  proof (cases "n = m")
    case True
    then show ?thesis
      using Cons.prems(1) anonymize_text_keeps_free re_sub_removes by simp
  next
    case False
    then show ?thesis using Cons by simp
  qed
qed

lemma match_tail_name_here:
  "(q = [] \<longrightarrow> pw) \<Longrightarrow> (q \<noteq> [] \<longrightarrow> is_word_char (last q)) \<Longrightarrow>
   match_tail pw q s = name_here q s"
proof (induction q arbitrary: pw s)
  case Nil
  then show ?case by (simp add: word_boundary_def)
next
  case (Cons p ps)
  show ?case
  proof (cases s)
    case Nil
    then show ?thesis by simp
  next
    case s: (Cons c cs)
    show ?thesis
    proof (cases "ci_eq p c")
      case True
      have "ps = [] \<longrightarrow> is_word_char c" using Cons.prems(2) True ci_eq_word by auto
      moreover have "ps \<noteq> [] \<longrightarrow> is_word_char (last ps)" using Cons.prems(2) by auto
      ultimately show ?thesis using Cons.IH [of "is_word_char c" cs] s True by simp
    next
      case False
      then show ?thesis using s by simp
    qed
  qed
qed

lemma match_at_name_here:
  assumes "word_ended n"
  shows "match_at pw n s = (\<not> pw \<and> name_here n s)"
proof -
  obtain p ps where n: "n = p # ps" using assms by (cases n) (auto simp: word_ended_def)
  have pw: "is_word_char p" using assms n by (simp add: word_ended_def)
  have mt: "match_tail pw n s = name_here n s"
    using match_tail_name_here [of n pw s] assms by (simp add: word_ended_def)
  have "name_here n s \<Longrightarrow> at_word s"
    using n pw ci_eq_word by (cases s) auto
  then show ?thesis unfolding match_at_def mt by (auto simp: word_boundary_def)
qed

lemma has_match_occurs:
  "word_ended n \<Longrightarrow> has_match pw n t = occurs_from pw n t"
  by (induction t arbitrary: pw) (simp_all add: match_at_name_here)

lemma match_tail_ci_equal:
  "match_tail pw m s \<Longrightarrow> ci_equal m (take (length m) s)"
  by (induction pw m s rule: match_tail.induct) auto

lemma replaces_re_sub_from: "replaces m pw t (re_sub_from pw m t)"
proof (induction pw m t rule: re_sub_from.induct)
  case (1 pw name)
  show ?case
  proof (cases "match_at pw name []")
    case True
    then have "name = []" by (cases name) (auto simp: match_at_def)
    then have "replaces name pw ([] @ []) (ANONYMIZATION_PLACEHOLDER @ [])"
      using True by (intro replaces_subst replaces_end) simp_all
    then show ?thesis using True by simp
  next
    case False
    then show ?thesis by (simp add: replaces_end)
  qed
next
  case (2 pw name c cs)
  show ?case
  proof (cases "match_at pw name (c # cs)")
    case True
    note matched = True
    show ?thesis
    proof (cases "name = []")
      case True
      have "replaces name pw (c # cs) (c # re_sub_from (is_word_char c) name cs)"
        using "2.IH"(1) [OF matched True] by (rule replaces_copy)
      then have "replaces name pw ([] @ c # cs)
              (ANONYMIZATION_PLACEHOLDER @ c # re_sub_from (is_word_char c) name cs)"
        using True matched by (intro replaces_subst) simp_all
      then show ?thesis using matched True by simp
    next
      case False
      let ?k = "length name"
      let ?v = "take ?k (c # cs)"
      have mt: "match_tail pw name (c # cs)" using matched by (simp add: match_at_def)
      from match_tail_end [OF mt False] have len: "?k \<le> length (c # cs)" by simp
      then have lv: "length ?v = ?k" and ne: "?v \<noteq> []" using False by auto
      have m: "match_at pw name (?v @ drop ?k (c # cs))" using matched by simp
      have r: "replaces name (if ?v = [] then pw else is_word_char (last ?v)) (drop ?k (c # cs))
                 (re_sub_from (is_word_char (last ?v)) name (drop ?k (c # cs)))"
        using "2.IH"(2) [OF matched False] ne by simp
      have "replaces name pw (?v @ drop ?k (c # cs))
              (ANONYMIZATION_PLACEHOLDER @
                 re_sub_from (is_word_char (last ?v)) name (drop ?k (c # cs)))"
        using m lv r by (rule replaces_subst)
      then show ?thesis using matched False by (simp del: take_Suc_Cons drop_Suc_Cons)
    qed
  next
    case False
    then show ?thesis using "2.IH"(3) by (simp add: replaces_copy)
  qed
qed



lemma anonymize_text_only_match:
  assumes "plain_name n" and "n \<in> set names" and "no_other_match n names s"
  shows "anonymize_text s names = re_sub n s"
  using assms(2,3)
proof (induction names)
  case Nil
  then show ?case by simp
next
  case (Cons m ms)
  show ?case
  proof (cases "m = n")
    case True
    have "\<forall>k \<in> set ms. \<not> has_match False k (re_sub n s)"
    proof
      fix k
      assume k: "k \<in> set ms"
      show "\<not> has_match False k (re_sub n s)"
      proof (cases "k = n")
        case True
        then show ?thesis using re_sub_removes [OF assms(1)] by simp
      next
        case False
        then have "plain_name k \<and> \<not> has_match False k s"
          using Cons.prems(2) k by (simp add: no_other_match_def)
        then show ?thesis using re_sub_keeps_free by blast
      qed
    qed
    then have "anonymize_text (re_sub n s) ms = re_sub n s" by (rule anonymize_text_unchanged)
    then show ?thesis using True by simp
  next
    case False
    then have "\<not> has_match False m s" using Cons.prems(2) by (simp add: no_other_match_def)
    then have "re_sub m s = s" by (simp add: re_sub_def re_sub_from_unchanged)
    moreover have "n \<in> set ms" using Cons.prems(1) False by auto
    moreover have "no_other_match n ms s" using Cons.prems(2) by (simp add: no_other_match_def)
    ultimately show ?thesis using Cons.IH by simp
  qed
qed

section \<open>Facts about nested-shape extraction\<close>

lemma item_sensitive_names_eq:
  "item_sensitive_names item acc = Some (acc @ names_of_act item)"
  by (cases "Appointee item"; cases "Name (the (Appointee item))";
      cases "Replacement (the (Appointee item))")
     (auto simp: item_sensitive_names_def names_of_act_def)

lemma collect_names_eq:
  "collect_names items acc = Some (acc @ concat (map names_of_act items))"
  by (induction items arbitrary: acc) (simp_all add: item_sensitive_names_eq)

lemma collect_all_sensitive_names_eq:
  "collect_all_sensitive_names data = Some (document_names data)"
  by (cases "Decrees data"; cases "Orders data")
     (simp_all add: collect_all_sensitive_names_def document_names_def document_acts_def
        collection_def collect_names_eq)

lemma article_chunks_length [simp]: "length (article_chunks ns j as) = length as"
  by (induction as arbitrary: j) simp_all

lemma article_chunks_nth:
  "i < length as \<Longrightarrow>
   article_chunks ns j as ! i =
     \<lparr>Chunk_ID = fmt_03d (j + i + 1),
      Chunk_FR = Some (Str (anonymize_text (case Content_FR (as ! i) of None \<Rightarrow> [] | Some s \<Rightarrow> s) ns)),
      Chunk_EN = Some (Str (anonymize_text (case Content_EN (as ! i) of None \<Rightarrow> [] | Some s \<Rightarrow> s) ns))\<rparr>"
proof (induction as arbitrary: i j)
  case Nil
  then show ?case by simp
next
  case (Cons a as)
  then show ?case by (cases i) simp_all
qed

lemma article_chunks_ids:
  "map Chunk_ID (article_chunks ns j as) = map fmt_03d [Suc j..<Suc (j + length as)]"
proof (induction as arbitrary: j)
  case Nil
  then show ?case by simp
next
  case (Cons a as)
  have "[Suc j..<Suc (j + length (a # as))] = Suc j # [Suc (Suc j)..<Suc (Suc j + length as)]"
    by (simp add: upt_rec)
  then show ?case using Cons.IH [of "Suc j"] by simp
qed

lemma act_unit_eq:
  "act_unit l ns f item =
     Some \<lparr>metadata =
             [(''Source'', Str f), (''Type'', Str l),
              (''Date'', Str (case Date item of None \<Rightarrow> ''N/A'' | Some v \<Rightarrow> v)),
              (''Title (FR)'', Str (case Title_FR item of None \<Rightarrow> ''N/A'' | Some v \<Rightarrow> v)),
              (''Title (EN)'', Str (case Title_EN item of None \<Rightarrow> ''N/A'' | Some v \<Rightarrow> v)),
              (''Appointee Name'', Str (
                 if (case Appointee item of None \<Rightarrow> ''N/A''
                     | Some a \<Rightarrow> (case Name a of None \<Rightarrow> ''N/A'' | Some n \<Rightarrow> n)) \<noteq> ''N/A''
                 then ANONYMIZATION_PLACEHOLDER else ''N/A''))],
           chunks = article_chunks ns 0 (collection (Articles item))\<rparr>"
  by (cases "Articles item") (simp_all add: act_unit_def collection_def Let_def)

lemma process_acts_eq:
  "process_acts l ns f items out = Some (out @ map (\<lambda>item. the (act_unit l ns f item)) items)"
  by (induction items arbitrary: out) (simp_all add: act_unit_eq)

lemma filter_and_chunk_json_data_eq:
  "filter_and_chunk_json_data data f =
     Some (map (\<lambda>item. the (act_unit ''Decree'' (document_names data) f item))
             (collection (Decrees data)) @
           map (\<lambda>item. the (act_unit ''Order'' (document_names data) f item))
             (collection (Orders data)))"
  by (cases "Decrees data"; cases "Orders data")
     (simp_all add: filter_and_chunk_json_data_def collect_all_sensitive_names_eq
        process_acts_eq collection_def)

lemma digit_value: "d < 10 \<Longrightarrow> (of_char (digit_char d) :: nat) - 48 = d"
  by (simp add: digit_char_def)

lemma digits_value_snoc: "digits_value (s @ [c]) = 10 * digits_value s + (of_char c - 48)"
  by (simp add: digits_value_def)

lemma digits_value_decimal: "digits_value (decimal n) = n"
proof (induction n rule: decimal.induct)
  case (1 n)
  show ?case
  proof (cases "n < 10")
    case True
    then show ?thesis
      by (subst decimal.simps) (simp add: digits_value_def digit_value)
  next
    case False
    then have "digits_value (decimal (n div 10)) = n div 10" using 1 by simp
    moreover have "decimal n = decimal (n div 10) @ [digit_char (n mod 10)]"
      using False by (subst decimal.simps) simp
    ultimately show ?thesis by (simp add: digits_value_snoc digit_value)
  qed
qed

lemma digits_value_zeros: "digits_value (replicate k (CHR ''0'') @ s) = digits_value s"
proof -
  have "foldl (\<lambda>a c. 10 * a + ((of_char c :: nat) - 48)) 0 (replicate k (CHR ''0'')) = 0"
    by (induction k) simp_all
  then show ?thesis by (simp add: digits_value_def)
qed

lemma digits_value_fmt_03d: "digits_value (fmt_03d n) = n"
  by (simp add: fmt_03d_def digits_value_zeros digits_value_decimal)

lemma decimal_length_small: "n < 1000 \<Longrightarrow> 0 < length (decimal n) \<and> length (decimal n) \<le> 3"
proof -
  assume n: "n < 1000"
  have d1: "\<And>m. m < 10 \<Longrightarrow> length (decimal m) = 1" by (subst decimal.simps) simp
  have d2: "\<And>m. 10 \<le> m \<Longrightarrow> m < 100 \<Longrightarrow> length (decimal m) = 2"
  proof -
    fix m :: nat assume "10 \<le> m" "m < 100"
    then have "m div 10 < 10" by simp
    then show "length (decimal m) = 2" using d1 \<open>10 \<le> m\<close> by (subst decimal.simps) simp
  qed
  have d3: "\<And>m. 100 \<le> m \<Longrightarrow> m < 1000 \<Longrightarrow> length (decimal m) = 3"
  proof -
    fix m :: nat assume "100 \<le> m" "m < 1000"
    then have "10 \<le> m div 10" "m div 10 < 100" by simp_all
    then show "length (decimal m) = 3" using d2 \<open>100 \<le> m\<close> by (subst decimal.simps) simp
  qed
  show ?thesis using n d1 [of n] d2 [of n] d3 [of n] by (cases "n < 10"; cases "n < 100") simp_all
qed

lemma fmt_03d_length: "n < 1000 \<Longrightarrow> length (fmt_03d n) = 3"
  using decimal_length_small [of n] by (simp add: fmt_03d_def)

lemma fmt_03d_inj: "fmt_03d m = fmt_03d n \<Longrightarrow> m = n"
  by (metis digits_value_fmt_03d)

section \<open>The units of a document by position\<close>

lemma json_units_nth:
  assumes "filter_and_chunk_json_data data f = Some units" and "i < length (document_acts data)"
  shows "units ! i =
           the (act_unit (if i < length (collection (Decrees data)) then ''Decree'' else ''Order'')
                  (document_names data) f (document_acts data ! i))"
proof -
  let ?ds = "collection (Decrees data)" and ?os = "collection (Orders data)"
  have u: "units = map (\<lambda>item. the (act_unit ''Decree'' (document_names data) f item)) ?ds @
                   map (\<lambda>item. the (act_unit ''Order'' (document_names data) f item)) ?os"
    using assms(1) by (simp add: filter_and_chunk_json_data_eq)
  show ?thesis
  proof (cases "i < length ?ds")
    case True
    then show ?thesis by (simp add: u nth_append document_acts_def)
  next
    case False
    then have "i - length ?ds < length ?os" using assms(2) by (simp add: document_acts_def)
    then show ?thesis using False by (simp add: u nth_append document_acts_def)
  qed
qed

lemma json_units_length:
  "filter_and_chunk_json_data data f = Some units \<Longrightarrow> length units = length (document_acts data)"
  by (auto simp: filter_and_chunk_json_data_eq document_acts_def)

section \<open>Names and article texts of a document\<close>

lemma article_chunks_texts:
  "c \<in> set (article_chunks ns j as) \<Longrightarrow>
   \<exists>x y. Chunk_FR c = Some (Str (anonymize_text x ns)) \<and>
         Chunk_EN c = Some (Str (anonymize_text y ns))"
  by (induction as arbitrary: j) auto

lemma json_chunk_texts:
  assumes "filter_and_chunk_json_data data f = Some units" and "u \<in> set units"
    and "c \<in> set (chunks u)"
  shows "\<exists>x y. Chunk_FR c = Some (Str (anonymize_text x (document_names data))) \<and>
               Chunk_EN c = Some (Str (anonymize_text y (document_names data)))"
proof -
  from assms(1,2) obtain l item where "u = the (act_unit l (document_names data) f item)"
    by (auto simp: filter_and_chunk_json_data_eq)
  then have "chunks u = article_chunks (document_names data) 0 (collection (Articles item))"
    by (simp add: act_unit_eq)
  then show ?thesis using assms(3) article_chunks_texts by simp
qed

lemma json_chunks_free:
  assumes "filter_and_chunk_json_data data f = Some units" and "u \<in> set units"
    and "c \<in> set (chunks u)" and "Chunk_FR c = Some (Str s) \<or> Chunk_EN c = Some (Str s)"
    and "n \<in> set (document_names data)" and "plain_name n" and "word_ended n"
  shows "\<not> contains_name s n"
proof -
  from json_chunk_texts [OF assms(1-3)] assms(4)
  obtain x where "s = anonymize_text x (document_names data)" by auto
  then show ?thesis
    using anonymize_text_removes [OF assms(6,5)] has_match_occurs [OF assms(7)]
    by (simp add: contains_name_def)
qed

lemma set_names_of_act:
  "set (names_of_act item) =
     {n. \<exists>a. Appointee item = Some a \<and> (Name a = Some n \<or> (Replacement a = Some n \<and> n \<noteq> []))}"
proof (cases "Appointee item")
  case None
  then show ?thesis by (simp add: names_of_act_def)
next
  case (Some a)
  then show ?thesis
    by (cases "Name a"; cases "Replacement a") (auto simp: names_of_act_def)
qed

lemma set_document_names:
  "set (document_names data) =
     {n. \<exists>item \<in> set (document_acts data). \<exists>a. Appointee item = Some a \<and>
           (Name a = Some n \<or> (Replacement a = Some n \<and> n \<noteq> []))}"
  by (auto simp: document_names_def set_names_of_act)

section \<open>Facts about flat-shape extraction\<close>

lemma has_key_iff: "has_key k d = (subscript d k \<noteq> None)"
  by (simp add: has_key_def subscript_def map_of_eq_None_iff)

lemma subscript_dict_set: "subscript (dict_set k v d) k' = (if k' = k then Some v else subscript d k')"
  by (induction d) (auto simp: subscript_def)

lemma has_key_dict_set: "has_key k' (dict_set k v d) = (k' = k \<or> has_key k' d)"
  by (simp add: has_key_iff subscript_dict_set)
















section \<open>Facts about the writer\<close>

lemma lines_text_append [simp]: "lines_text (xs @ ys) = lines_text xs @ lines_text ys"
  by (simp add: lines_text_def)

lemma write_metadata_eq:
  "write_metadata items f =
     f @ lines_text (map (\<lambda>(key, value). key @ '': '' @ format_value value) items)"
  by (induction items arbitrary: f) (auto simp: lines_text_def)

lemma write_chunks_eq:
  "write_chunks cs f = f @ lines_text (concat (map chunk_lines cs))"
proof (induction cs arbitrary: f)
  case Nil
  then show ?case by (simp add: lines_text_def)
next
  case (Cons c cs)
  show ?case
  proof -
    have fr: "(case Chunk_FR c of
                 Some v \<Rightarrow> if truthy v then [''Content (FR): '' @ format_value v] else []
               | None \<Rightarrow> []) =
              (case Chunk_FR c of
                 Some (Str s) \<Rightarrow> if s \<noteq> [] then [''Content (FR): '' @ s] else []
               | _ \<Rightarrow> [])"
      by (cases "Chunk_FR c"; cases "the (Chunk_FR c)") simp_all
    have en: "(case Chunk_EN c of
                 Some v \<Rightarrow> if truthy v then [''Content (EN): '' @ format_value v] else []
               | None \<Rightarrow> []) =
              (case Chunk_EN c of
                 Some (Str s) \<Rightarrow> if s \<noteq> [] then [''Content (EN): '' @ s] else []
               | _ \<Rightarrow> [])"
      by (cases "Chunk_EN c"; cases "the (Chunk_EN c)") simp_all
    have "chunk_lines c =
            [''Chunk ['' @ Chunk_ID c @ '']:''] @
            (case Chunk_FR c of
               Some v \<Rightarrow> if truthy v then [''Content (FR): '' @ format_value v] else []
             | None \<Rightarrow> []) @
            (case Chunk_EN c of
               Some v \<Rightarrow> if truthy v then [''Content (EN): '' @ format_value v] else []
             | None \<Rightarrow> []) @ ['''']"
      unfolding fr en by (simp add: chunk_lines_def)
    then show ?thesis
      by (cases "Chunk_FR c"; cases "Chunk_EN c")
         (simp_all add: Cons.IH Let_def lines_text_def)
  qed
qed

lemma unit_file_text_eq: "unit_file_text u = lines_text (unit_lines u)"
  by (simp add: unit_file_text_def unit_lines_def write_metadata_eq write_chunks_eq lines_text_def)

lemma write_units_eq:
  "write_units (path_join OUTPUT_DIR d) d i units w =
     w\<lparr>written := written w @
           map (\<lambda>(j, u). (unit_path d j, unit_file_text u)) (List.enumerate i units),
        printed := printed w @
           map (\<lambda>(j, u). Msg_written (unit_path d j)) (List.enumerate i units)\<rparr>"
  by (induction units arbitrary: i w) (simp_all add: unit_path_def Let_def)

lemma path_join_inj:
  assumes "path_join p (d @ CHR ''_'' # x) = path_join p (d @ CHR ''_'' # y)"
  shows "x = y"
proof -
  have "hd (d @ CHR ''_'' # x) = hd (d @ CHR ''_'' # y)" by (cases d) simp_all
  then show ?thesis using assms by (auto simp: path_join_def split: if_splits)
qed

lemma unit_path_inj: "unit_path d i = unit_path d j \<Longrightarrow> i = j"
proof -
  assume "unit_path d i = unit_path d j"
  then have "path_join (path_join OUTPUT_DIR d) (d @ CHR ''_'' # (''unit_'' @ fmt_03d (i + 1) @ ''.txt'')) =
             path_join (path_join OUTPUT_DIR d) (d @ CHR ''_'' # (''unit_'' @ fmt_03d (j + 1) @ ''.txt''))"
    by (simp add: unit_path_def)
  then have "''unit_'' @ fmt_03d (i + 1) @ ''.txt'' = ''unit_'' @ fmt_03d (j + 1) @ ''.txt''"
    by (rule path_join_inj)
  then have "fmt_03d (i + 1) = fmt_03d (j + 1)" by simp
  then have "i + 1 = j + 1" by (rule fmt_03d_inj)
  then show "i = j" by simp
qed

lemma unit_paths_distinct: "distinct (map (unit_path d) [0..<n])"
  by (simp add: distinct_map inj_on_def unit_path_inj)


section \<open>Claims\<close>










text \<open>
  C4. The anonymizer always returns, but an empty name in the list is not guarded
  against: its pattern \<open>\b\b\<close> matches at both ends of the word \<open>ab\<close>, so the placeholder
  is inserted twice instead of the text being left unchanged.
\<close>

theorem anonymize_text_empty_name_inserts:
  "anonymize_text ''ab'' [''''] = ''[ANONYMIZED_PERSON]ab[ANONYMIZED_PERSON]''"
  by code_simp

text \<open>
  C5 (amended). \<open>anonymize_text\<close> is idempotent for every text and every list of names
  in which each name is non-empty, holds no square bracket and is not a spelling of
  \<open>ANONYMIZED_PERSON\<close>.
\<close>

theorem anonymize_text_idempotent_plain:
  assumes "list_all plain_name names"
  shows "anonymize_text (anonymize_text s names) names = anonymize_text s names"
proof -
  have "\<forall>n \<in> set names. \<not> has_match False n (anonymize_text s names)"
    using assms anonymize_text_removes by (auto simp: list_all_iff)
  then show ?thesis by (rule anonymize_text_unchanged)
qed

theorem anonymize_text_idempotent_plain_witness:
  "list_all plain_name [''Bob'', ''Ann''] \<and>
   anonymize_text (anonymize_text ''ANN met bob'' [''Bob'', ''Ann'']) [''Bob'', ''Ann''] =
   anonymize_text ''ANN met bob'' [''Bob'', ''Ann'']"
proof -
  have h: "list_all plain_name [''Bob'', ''Ann'']"
    by code_simp
  show ?thesis
    using anonymize_text_idempotent_plain [OF h, of "''ANN met bob''"] h by blast
qed

text \<open>
  C5 as stated fails in each excluded case: the word inside the placeholder matches
  the name \<open>ANONYMIZED_PERSON\<close> again, the placeholder's closing bracket between two
  word characters matches the name \<open>]\<close> again, and the empty name matches at the word
  boundaries inside every placeholder.
\<close>

theorem anonymize_text_not_idempotent:
  "anonymize_text (anonymize_text ''ANONYMIZED_PERSON'' [''ANONYMIZED_PERSON''])
       [''ANONYMIZED_PERSON''] \<noteq>
     anonymize_text ''ANONYMIZED_PERSON'' [''ANONYMIZED_PERSON''] \<and>
   anonymize_text (anonymize_text ''a]b'' ['']'']) ['']''] \<noteq> anonymize_text ''a]b'' ['']''] \<and>
   anonymize_text (anonymize_text ''ab'' ['''']) [''''] \<noteq> anonymize_text ''ab'' ['''']"
  by code_simp

text \<open>
  C6. Nested-shape extraction returns one unit per act: the units of the Decrees in
  source order, then the units of the Orders in source order. Each unit has as many
  chunks as its act has articles, and the chunk ids are the formatted numbers
  1, 2, ..., N in this order; a formatted number reads back as the number, and has
  three characters below 1000.
\<close>

theorem nested_units_and_chunk_ids:
  "\<exists>units. filter_and_chunk_json_data data f = Some units \<and>
     length units = length (collection (Decrees data)) + length (collection (Orders data)) \<and>
     list_all2
       (\<lambda>item u. act_unit ''Decree'' (document_names data) f item = Some u \<and>
          subscript (metadata u) ''Type'' = Some (Str ''Decree'') \<and>
          length (chunks u) = length (collection (Articles item)) \<and>
          map Chunk_ID (chunks u) = map fmt_03d [1..<Suc (length (collection (Articles item)))])
       (collection (Decrees data)) (take (length (collection (Decrees data))) units) \<and>
     list_all2
       (\<lambda>item u. act_unit ''Order'' (document_names data) f item = Some u \<and>
          subscript (metadata u) ''Type'' = Some (Str ''Order'') \<and>
          length (chunks u) = length (collection (Articles item)) \<and>
          map Chunk_ID (chunks u) = map fmt_03d [1..<Suc (length (collection (Articles item)))])
       (collection (Orders data)) (drop (length (collection (Decrees data))) units) \<and>
     (\<forall>n. digits_value (fmt_03d n) = n) \<and> (\<forall>n < 1000. length (fmt_03d n) = 3)"
proof -
  let ?ns = "document_names data"
  have unit: "\<And>l item. (\<lambda>item u. act_unit l ?ns f item = Some u \<and>
          subscript (metadata u) ''Type'' = Some (Str l) \<and>
          length (chunks u) = length (collection (Articles item)) \<and>
          map Chunk_ID (chunks u) = map fmt_03d [1..<Suc (length (collection (Articles item)))])
        item (the (act_unit l ?ns f item))"
    using article_chunks_ids [of ?ns 0] by (simp add: act_unit_eq subscript_def)
  have rel: "\<And>l items. list_all2 (\<lambda>item u. act_unit l ?ns f item = Some u \<and>
          subscript (metadata u) ''Type'' = Some (Str l) \<and>
          length (chunks u) = length (collection (Articles item)) \<and>
          map Chunk_ID (chunks u) = map fmt_03d [1..<Suc (length (collection (Articles item)))])
        items (map (\<lambda>item. the (act_unit l ?ns f item)) items)"
    unfolding list_all2_map2 by (rule list_all2_refl) (rule unit)
  show ?thesis
    unfolding filter_and_chunk_json_data_eq
    using rel [of "''Decree''" "collection (Decrees data)"] rel [of "''Order''" "collection (Orders data)"]
    by (simp add: digits_value_fmt_03d fmt_03d_length)
qed

theorem nested_units_and_chunk_ids_witness:
  "(\<exists>units.
      filter_and_chunk_json_data
        \<lparr>Decrees = Some [\<lparr>Date = None, Title_FR = None, Title_EN = None, Appointee = None,
                           Articles = Some [\<lparr>Content_FR = Some ''un'', Content_EN = None\<rparr>,
                                            \<lparr>Content_FR = None, Content_EN = Some ''two''\<rparr>]\<rparr>],
         Orders = Some [\<lparr>Date = None, Title_FR = None, Title_EN = None, Appointee = None,
                          Articles = None\<rparr>]\<rparr> ''g.json'' = Some units \<and>
      length units = 2 \<and>
      map (\<lambda>u. map Chunk_ID (chunks u)) units = [[''001'', ''002''], []]) \<and>
   (7::nat) < 1000 \<and> length (fmt_03d 7) = 3"
proof -
  let ?data = "\<lparr>Decrees = Some [\<lparr>Date = None, Title_FR = None, Title_EN = None, Appointee = None,
                           Articles = Some [\<lparr>Content_FR = Some ''un'', Content_EN = None\<rparr>,
                                            \<lparr>Content_FR = None, Content_EN = Some ''two''\<rparr>]\<rparr>],
         Orders = Some [\<lparr>Date = None, Title_FR = None, Title_EN = None, Appointee = None,
                          Articles = None\<rparr>]\<rparr>"
  have e: "map (\<lambda>u. map Chunk_ID (chunks u)) (the (filter_and_chunk_json_data ?data ''g.json'')) =
             [[''001'', ''002''], []]"
    by code_simp
  show ?thesis
    using nested_units_and_chunk_ids [of ?data "''g.json''"] e
    by (auto simp: collection_def)
qed

text \<open>
  C7 (amended). For every unit list the writer creates the output directory and
  writes one file per unit, under pairwise different names, in list order. The text
  of a file is the unit's lines in the layout of the specification; a unit without
  chunks gives the metadata lines and one empty line. The call returns \<open>None\<close>.
\<close>

theorem writer_files_and_layout:
  "fst (write_chunks_to_files units d w) = PyNone \<and>
   written (snd (write_chunks_to_files units d w)) =
     written w @ map (\<lambda>(j, u). (unit_path d j, lines_text (unit_lines u))) (List.enumerate 0 units) \<and>
   distinct (map (unit_path d) [0..<length units]) \<and>
   made_dirs (snd (write_chunks_to_files units d w)) = made_dirs w @ [path_join OUTPUT_DIR d] \<and>
   (\<forall>u. chunks u = [] \<longrightarrow>
      unit_lines u = map (\<lambda>(key, value). key @ '': '' @ format_value value) (metadata u) @ [''''])"
  by (simp add: write_chunks_to_files_def Let_def write_units_eq unit_file_text_eq
        unit_paths_distinct unit_lines_def)

theorem writer_files_and_layout_witness:
  "chunks \<lparr>metadata = [(''Source'', Str ''a.csv''), (''Type'', Str ''CSV_Row'')], chunks = []\<rparr> = [] \<and>
   unit_lines \<lparr>metadata = [(''Source'', Str ''a.csv''), (''Type'', Str ''CSV_Row'')], chunks = []\<rparr> =
     [''Source: a.csv'', ''Type: CSV_Row'', ''''] \<and>
   written (snd (write_chunks_to_files
       [\<lparr>metadata = [(''Source'', Str ''a.csv''), (''Type'', Str ''CSV_Row'')], chunks = []\<rparr>,
        \<lparr>metadata = [(''Type'', Str ''Order'')],
          chunks = [\<lparr>Chunk_ID = ''001'', Chunk_FR = Some (Str ''''), Chunk_EN = Some (Str ''text'')\<rparr>]\<rparr>]
       ''a_csv'' \<lparr>made_dirs = [], written = [], printed = []\<rparr>)) =
     [(''filtered_and_chunked_data/a_csv/a_csv_unit_001.txt'',
       lines_text [''Source: a.csv'', ''Type: CSV_Row'', '''']),
      (''filtered_and_chunked_data/a_csv/a_csv_unit_002.txt'',
       lines_text [''Type: Order'', '''', ''Chunk [001]:'', ''Content (EN): text'', ''''])]"
proof -
  have e: "written (snd (write_chunks_to_files
       [\<lparr>metadata = [(''Source'', Str ''a.csv''), (''Type'', Str ''CSV_Row'')], chunks = []\<rparr>,
        \<lparr>metadata = [(''Type'', Str ''Order'')],
          chunks = [\<lparr>Chunk_ID = ''001'', Chunk_FR = Some (Str ''''), Chunk_EN = Some (Str ''text'')\<rparr>]\<rparr>]
       ''a_csv'' \<lparr>made_dirs = [], written = [], printed = []\<rparr>)) =
     [(''filtered_and_chunked_data/a_csv/a_csv_unit_001.txt'',
       lines_text [''Source: a.csv'', ''Type: CSV_Row'', '''']),
      (''filtered_and_chunked_data/a_csv/a_csv_unit_002.txt'',
       lines_text [''Type: Order'', '''', ''Chunk [001]:'', ''Content (EN): text'', ''''])]"
    by code_simp
  have h: "chunks \<lparr>metadata = [(''Source'', Str ''a.csv''), (''Type'', Str ''CSV_Row'')], chunks = []\<rparr> = [] \<and>
   unit_lines \<lparr>metadata = [(''Source'', Str ''a.csv''), (''Type'', Str ''CSV_Row'')], chunks = []\<rparr> =
     [''Source: a.csv'', ''Type: CSV_Row'', '''']"
    by code_simp
  show ?thesis
    using writer_files_and_layout
      [of "[\<lparr>metadata = [(''Source'', Str ''a.csv''), (''Type'', Str ''CSV_Row'')], chunks = []\<rparr>,
        \<lparr>metadata = [(''Type'', Str ''Order'')],
          chunks = [\<lparr>Chunk_ID = ''001'', Chunk_FR = Some (Str ''''), Chunk_EN = Some (Str ''text'')\<rparr>]\<rparr>]"
        "''a_csv''" "\<lparr>made_dirs = [], written = [], printed = []\<rparr>"] e h
    by blast
qed

text \<open>
  C7 as stated fails in its last part: the writer has no \<open>return\<close> statement, so the
  call that writes one file returns \<open>None\<close> and not the count 1.
\<close>

theorem writer_returns_none:
  "write_chunks_to_files [\<lparr>metadata = [(''Type'', Str ''Order'')], chunks = []\<rparr>] ''x''
     \<lparr>made_dirs = [], written = [], printed = []\<rparr> =
   (PyNone,
    \<lparr>made_dirs = [''filtered_and_chunked_data/x''],
     written = [(''filtered_and_chunked_data/x/x_unit_001.txt'',
                 ''Type: Order'' @ [CHR 0x0A, CHR 0x0A])],
     printed = [Msg_written ''filtered_and_chunked_data/x/x_unit_001.txt'']\<rparr>) \<and>
   fst (write_chunks_to_files [\<lparr>metadata = [(''Type'', Str ''Order'')], chunks = []\<rparr>] ''x''
     \<lparr>made_dirs = [], written = [], printed = []\<rparr>) \<noteq> PyInt 1"
  by code_simp

text \<open>
  C8 (defect of the code). A line of a CSV file that is shorter than the header is a
  record with absent fields: \<open>csv.DictReader\<close> gives it the value \<open>None\<close> for every
  column it lacks. For the file with the header \<open>Name,Date,Text_Content\<close> and the lines
  \<open>Bob,2024-05-01,Ask Bob\<close> and \<open>Al\<close>, the first row alone is extracted, but with the
  second row extraction raises (the \<open>TypeError\<close> of \<open>re.sub\<close> at line 193), no unit is
  returned for either row, and \<open>algorithm_main\<close> prints the error message and writes
  no file. For the file with the header \<open>Name,Text_Content,Date\<close> and the line
  \<open>Al,hello\<close>, the absent \<open>Date\<close> is not omitted: the metadata holds \<open>Date\<close> with the
  value \<open>None\<close> and the file has the line \<open>Date: None\<close>.
\<close>

theorem short_row_raises_type_error:
  "filter_and_chunk_csv_data
     [\<lparr>cells = [(''Name'', Str ''Bob''), (''Date'', Str ''2024-05-01''),
                 (''Text_Content'', Str ''Ask Bob'')], extra = None\<rparr>] ''a.csv'' =
     Some [\<lparr>metadata = [(''Source'', Str ''a.csv''), (''Type'', Str ''CSV_Row''),
                         (''Row_ID'', Str ''1''), (''Date'', Str ''2024-05-01'')],
            chunks = [\<lparr>Chunk_ID = ''001'', Chunk_FR = None,
                       Chunk_EN = Some (Str ''Ask [ANONYMIZED_PERSON]'')\<rparr>]\<rparr>] \<and>
   filter_and_chunk_csv_data
     [\<lparr>cells = [(''Name'', Str ''Bob''), (''Date'', Str ''2024-05-01''),
                 (''Text_Content'', Str ''Ask Bob'')], extra = None\<rparr>,
      \<lparr>cells = [(''Name'', Str ''Al''), (''Date'', Null), (''Text_Content'', Null)],
        extra = None\<rparr>] ''a.csv'' = None \<and>
   algorithm_main (\<lambda>p. None)
     (\<lambda>p. Some
        [\<lparr>cells = [(''Name'', Str ''Bob''), (''Date'', Str ''2024-05-01''),
                    (''Text_Content'', Str ''Ask Bob'')], extra = None\<rparr>,
         \<lparr>cells = [(''Name'', Str ''Al''), (''Date'', Null), (''Text_Content'', Null)],
           extra = None\<rparr>])
     ''in/a.csv'' \<lparr>made_dirs = [], written = [], printed = []\<rparr> =
     \<lparr>made_dirs = [], written = [],
      printed = [Msg_processing ''in/a.csv'', Msg_error ''in/a.csv'']\<rparr> \<and>
   filter_and_chunk_csv_data
     [\<lparr>cells = [(''Name'', Str ''Al''), (''Text_Content'', Str ''hello''), (''Date'', Null)],
        extra = None\<rparr>] ''a.csv'' =
     Some [\<lparr>metadata = [(''Source'', Str ''a.csv''), (''Type'', Str ''CSV_Row''),
                         (''Row_ID'', Str ''1''), (''Date'', Null)],
            chunks = [\<lparr>Chunk_ID = ''001'', Chunk_FR = None,
                       Chunk_EN = Some (Str ''hello'')\<rparr>]\<rparr>] \<and>
   unit_file_text
     \<lparr>metadata = [(''Source'', Str ''a.csv''), (''Type'', Str ''CSV_Row''),
                  (''Row_ID'', Str ''1''), (''Date'', Null)],
      chunks = [\<lparr>Chunk_ID = ''001'', Chunk_FR = None, Chunk_EN = Some (Str ''hello'')\<rparr>]\<rparr> =
     lines_text [''Source: a.csv'', ''Type: CSV_Row'', ''Row_ID: 1'', ''Date: None'', '''',
                 ''Chunk [001]:'', ''Content (EN): hello'', '''']"
  by code_simp

text \<open>
  C9. When the extractor chosen by the file extension returns an empty unit list,
  \<open>algorithm_main\<close> does not call the writer: no directory is created, no file is
  written, and the only messages are the one that announces the file and the one
  that reports that no unit was produced. The writer itself would create the
  directory even for an empty list.
\<close>

theorem no_units_no_writer:
  assumes "(str_lower (splitext_ext p) = ''.json'' \<and> json_load p = Some raw \<and>
            filter_and_chunk_json_data raw (basename p) = Some []) \<or>
           (str_lower (splitext_ext p) = ''.csv'' \<and> csv_rows p = Some rows \<and>
            filter_and_chunk_csv_data rows (basename p) = Some [])"
  shows "made_dirs (algorithm_main json_load csv_rows p w) = made_dirs w \<and>
         written (algorithm_main json_load csv_rows p w) = written w \<and>
         printed (algorithm_main json_load csv_rows p w) =
           printed w @ [Msg_processing p, Msg_no_units p] \<and>
         made_dirs (snd (write_chunks_to_files [] d w)) = made_dirs w @ [path_join OUTPUT_DIR d]"
  using assms by (auto simp: algorithm_main_def Let_def write_chunks_to_files_def)

theorem no_units_no_writer_witness:
  "str_lower (splitext_ext ''in/Acts.JSON'') = ''.json'' \<and>
   filter_and_chunk_json_data \<lparr>Decrees = Some [], Orders = None\<rparr> (basename ''in/Acts.JSON'') = Some [] \<and>
   algorithm_main (\<lambda>p. Some \<lparr>Decrees = Some [], Orders = None\<rparr>) (\<lambda>p. None) ''in/Acts.JSON''
     \<lparr>made_dirs = [], written = [], printed = []\<rparr> =
     \<lparr>made_dirs = [], written = [],
      printed = [Msg_processing ''in/Acts.JSON'', Msg_no_units ''in/Acts.JSON'']\<rparr>"
proof -
  have h: "str_lower (splitext_ext ''in/Acts.JSON'') = ''.json'' \<and>
    filter_and_chunk_json_data \<lparr>Decrees = Some [], Orders = None\<rparr> (basename ''in/Acts.JSON'') = Some []"
    by code_simp
  have e: "algorithm_main (\<lambda>p. Some \<lparr>Decrees = Some [], Orders = None\<rparr>) (\<lambda>p. None) ''in/Acts.JSON''
     \<lparr>made_dirs = [], written = [], printed = []\<rparr> =
     \<lparr>made_dirs = [], written = [],
      printed = [Msg_processing ''in/Acts.JSON'', Msg_no_units ''in/Acts.JSON'']\<rparr>"
    by code_simp
  show ?thesis
    using no_units_no_writer [of "''in/Acts.JSON''" "\<lambda>p. Some \<lparr>Decrees = Some [], Orders = None\<rparr>"
        "\<lparr>Decrees = Some [], Orders = None\<rparr>" "\<lambda>p. None" "[]"
        "\<lparr>made_dirs = [], written = [], printed = []\<rparr>" "[]"] h e
    by blast
qed

text \<open>
  C10 (amended). In nested-shape extraction an act whose appointee name is the
  literal string \<open>N/A\<close> gets the \<open>Appointee Name\<close> metadata \<open>N/A\<close>, as an act without a
  name does, and not the placeholder. The string is still in the collected name list,
  and no chunk text of the document keeps a whole-word occurrence of \<open>N/A\<close>. The
  occurrences are replaced by the placeholder in every article text in which no other
  collected name has a match, the other names being non-empty, without square
  brackets and not a spelling of \<open>ANONYMIZED_PERSON\<close>: there the chunk text is the
  result of the one substitution pass for \<open>N/A\<close> over the article text, a pass that
  replaces matches of \<open>N/A\<close> between word boundaries only and leaves no whole-word
  occurrence.
\<close>

theorem literal_na_name:
  assumes "i < length (document_acts data)"
    and "Appointee (document_acts data ! i) = Some a" and "Name a = Some ''N/A''"
  shows "\<exists>names units.
           collect_all_sensitive_names data = Some names \<and> ''N/A'' \<in> set names \<and>
           filter_and_chunk_json_data data f = Some units \<and>
           length units = length (document_acts data) \<and>
           subscript (metadata (units ! i)) ''Appointee Name'' = Some (Str ''N/A'') \<and>
           (\<forall>u \<in> set units. \<forall>c \<in> set (chunks u). \<forall>s.
              Chunk_FR c = Some (Str s) \<or> Chunk_EN c = Some (Str s) \<longrightarrow>
              \<not> contains_name s ''N/A'') \<and>
           (\<forall>k < length units. \<forall>j < length (collection (Articles (document_acts data ! k))).
              (no_other_match ''N/A'' names
                 (case Content_FR (collection (Articles (document_acts data ! k)) ! j) of
                    None \<Rightarrow> [] | Some s \<Rightarrow> s) \<longrightarrow>
               Chunk_FR (chunks (units ! k) ! j) =
                 Some (Str (re_sub ''N/A''
                   (case Content_FR (collection (Articles (document_acts data ! k)) ! j) of
                      None \<Rightarrow> [] | Some s \<Rightarrow> s)))) \<and>
              (no_other_match ''N/A'' names
                 (case Content_EN (collection (Articles (document_acts data ! k)) ! j) of
                    None \<Rightarrow> [] | Some s \<Rightarrow> s) \<longrightarrow>
               Chunk_EN (chunks (units ! k) ! j) =
                 Some (Str (re_sub ''N/A''
                   (case Content_EN (collection (Articles (document_acts data ! k)) ! j) of
                      None \<Rightarrow> [] | Some s \<Rightarrow> s))))) \<and>
           (\<forall>s. replaces ''N/A'' False s (re_sub ''N/A'' s) \<and>
                \<not> contains_name (re_sub ''N/A'' s) ''N/A'')"
proof -
  let ?names = "document_names data"
  obtain units where u: "filter_and_chunk_json_data data f = Some units"
    by (simp add: filter_and_chunk_json_data_eq)
  have len: "length units = length (document_acts data)" using u by (rule json_units_length)
  have "document_acts data ! i \<in> set (document_acts data)" using assms(1) by simp
  then have mem: "''N/A'' \<in> set ?names"
    using assms(2,3) unfolding set_document_names by blast
  have p: "plain_name ''N/A''" and w: "word_ended ''N/A''" by code_simp+
  have md: "subscript (metadata (units ! i)) ''Appointee Name'' = Some (Str ''N/A'')"
    using json_units_nth [OF u assms(1)] assms(2,3) by (simp add: act_unit_eq subscript_def)
  have fr: "\<forall>u \<in> set units. \<forall>c \<in> set (chunks u). \<forall>s.
          Chunk_FR c = Some (Str s) \<or> Chunk_EN c = Some (Str s) \<longrightarrow>
          \<not> contains_name s ''N/A''"
    using json_chunks_free [OF u _ _ _ mem p w] by blast
  have ch: "\<forall>k < length units. \<forall>j < length (collection (Articles (document_acts data ! k))).
        Chunk_FR (chunks (units ! k) ! j) =
          Some (Str (anonymize_text
                  (case Content_FR (collection (Articles (document_acts data ! k)) ! j) of
                     None \<Rightarrow> [] | Some s \<Rightarrow> s) ?names)) \<and>
        Chunk_EN (chunks (units ! k) ! j) =
          Some (Str (anonymize_text
                  (case Content_EN (collection (Articles (document_acts data ! k)) ! j) of
                     None \<Rightarrow> [] | Some s \<Rightarrow> s) ?names))"
    using json_units_nth [OF u] len by (simp add: act_unit_eq article_chunks_nth)
  have one: "\<forall>k < length units. \<forall>j < length (collection (Articles (document_acts data ! k))).
              (no_other_match ''N/A'' ?names
                 (case Content_FR (collection (Articles (document_acts data ! k)) ! j) of
                    None \<Rightarrow> [] | Some s \<Rightarrow> s) \<longrightarrow>
               Chunk_FR (chunks (units ! k) ! j) =
                 Some (Str (re_sub ''N/A''
                   (case Content_FR (collection (Articles (document_acts data ! k)) ! j) of
                      None \<Rightarrow> [] | Some s \<Rightarrow> s)))) \<and>
              (no_other_match ''N/A'' ?names
                 (case Content_EN (collection (Articles (document_acts data ! k)) ! j) of
                    None \<Rightarrow> [] | Some s \<Rightarrow> s) \<longrightarrow>
               Chunk_EN (chunks (units ! k) ! j) =
                 Some (Str (re_sub ''N/A''
                   (case Content_EN (collection (Articles (document_acts data ! k)) ! j) of
                      None \<Rightarrow> [] | Some s \<Rightarrow> s))))"
    using ch anonymize_text_only_match [OF p mem] by simp
  have pass: "\<forall>s. replaces ''N/A'' False s (re_sub ''N/A'' s) \<and>
                \<not> contains_name (re_sub ''N/A'' s) ''N/A''"
    using replaces_re_sub_from [of "''N/A''" False] re_sub_removes [OF p] has_match_occurs [OF w]
    by (simp add: re_sub_def contains_name_def)
  show ?thesis
    by (rule exI [of _ ?names], rule exI [of _ units])
       (rule conjI collect_all_sensitive_names_eq mem u len md fr one pass)+
qed

theorem literal_na_name_witness:
  "(1::nat) < length (document_acts
      \<lparr>Decrees = Some [\<lparr>Date = None, Title_FR = None, Title_EN = None,
                         Appointee = Some \<lparr>Name = Some ''Ann'', Replacement = None\<rparr>,
                         Articles = None\<rparr>],
       Orders = Some [\<lparr>Date = None, Title_FR = None, Title_EN = None,
                        Appointee = Some \<lparr>Name = Some ''N/A'', Replacement = None\<rparr>,
                        Articles = Some [\<lparr>Content_FR = None, Content_EN = Some ''rank: N/A''\<rparr>]\<rparr>]\<rparr>) \<and>
   Appointee (document_acts
      \<lparr>Decrees = Some [\<lparr>Date = None, Title_FR = None, Title_EN = None,
                         Appointee = Some \<lparr>Name = Some ''Ann'', Replacement = None\<rparr>,
                         Articles = None\<rparr>],
       Orders = Some [\<lparr>Date = None, Title_FR = None, Title_EN = None,
                        Appointee = Some \<lparr>Name = Some ''N/A'', Replacement = None\<rparr>,
                        Articles = Some [\<lparr>Content_FR = None, Content_EN = Some ''rank: N/A''\<rparr>]\<rparr>]\<rparr> ! 1) =
     Some \<lparr>Name = Some ''N/A'', Replacement = None\<rparr> \<and>
   no_other_match ''N/A'' [''Ann'', ''N/A''] ''rank: N/A'' \<and>
   re_sub ''N/A'' ''rank: N/A'' = ''rank: [ANONYMIZED_PERSON]'' \<and>
   filter_and_chunk_json_data
      \<lparr>Decrees = Some [\<lparr>Date = None, Title_FR = None, Title_EN = None,
                         Appointee = Some \<lparr>Name = Some ''Ann'', Replacement = None\<rparr>,
                         Articles = None\<rparr>],
       Orders = Some [\<lparr>Date = None, Title_FR = None, Title_EN = None,
                        Appointee = Some \<lparr>Name = Some ''N/A'', Replacement = None\<rparr>,
                        Articles = Some [\<lparr>Content_FR = None, Content_EN = Some ''rank: N/A''\<rparr>]\<rparr>]\<rparr>
      ''g.json'' =
     Some [\<lparr>metadata = [(''Source'', Str ''g.json''), (''Type'', Str ''Decree''),
                         (''Date'', Str ''N/A''), (''Title (FR)'', Str ''N/A''),
                         (''Title (EN)'', Str ''N/A''),
                         (''Appointee Name'', Str ''[ANONYMIZED_PERSON]'')],
            chunks = []\<rparr>,
           \<lparr>metadata = [(''Source'', Str ''g.json''), (''Type'', Str ''Order''),
                         (''Date'', Str ''N/A''), (''Title (FR)'', Str ''N/A''),
                         (''Title (EN)'', Str ''N/A''), (''Appointee Name'', Str ''N/A'')],
            chunks = [\<lparr>Chunk_ID = ''001'', Chunk_FR = Some (Str ''''),
                       Chunk_EN = Some (Str ''rank: [ANONYMIZED_PERSON]'')\<rparr>]\<rparr>]"
proof -
  let ?data = "\<lparr>Decrees = Some [\<lparr>Date = None, Title_FR = None, Title_EN = None,
                         Appointee = Some \<lparr>Name = Some ''Ann'', Replacement = None\<rparr>,
                         Articles = None\<rparr>],
       Orders = Some [\<lparr>Date = None, Title_FR = None, Title_EN = None,
                        Appointee = Some \<lparr>Name = Some ''N/A'', Replacement = None\<rparr>,
                        Articles = Some [\<lparr>Content_FR = None, Content_EN = Some ''rank: N/A''\<rparr>]\<rparr>]\<rparr>"
  have h1: "(1::nat) < length (document_acts ?data)" by code_simp
  have h2: "Appointee (document_acts ?data ! 1) = Some \<lparr>Name = Some ''N/A'', Replacement = None\<rparr>"
    by code_simp
  have h3: "no_other_match ''N/A'' [''Ann'', ''N/A''] ''rank: N/A'' \<and>
            re_sub ''N/A'' ''rank: N/A'' = ''rank: [ANONYMIZED_PERSON]''"
    by code_simp
  have e: "filter_and_chunk_json_data ?data ''g.json'' =
     Some [\<lparr>metadata = [(''Source'', Str ''g.json''), (''Type'', Str ''Decree''),
                         (''Date'', Str ''N/A''), (''Title (FR)'', Str ''N/A''),
                         (''Title (EN)'', Str ''N/A''),
                         (''Appointee Name'', Str ''[ANONYMIZED_PERSON]'')],
            chunks = []\<rparr>,
           \<lparr>metadata = [(''Source'', Str ''g.json''), (''Type'', Str ''Order''),
                         (''Date'', Str ''N/A''), (''Title (FR)'', Str ''N/A''),
                         (''Title (EN)'', Str ''N/A''), (''Appointee Name'', Str ''N/A'')],
            chunks = [\<lparr>Chunk_ID = ''001'', Chunk_FR = Some (Str ''''),
                       Chunk_EN = Some (Str ''rank: [ANONYMIZED_PERSON]'')\<rparr>]\<rparr>]"
    by code_simp
  have "\<exists>names. collect_all_sensitive_names ?data = Some names \<and> ''N/A'' \<in> set names"
    using literal_na_name [OF h1 h2, of "''g.json''"] by simp blast
  then show ?thesis using h1 h2 h3 e by (intro conjI) simp_all
qed

text \<open>
  C10 as stated fails in its last part: with the names \<open>N\<close> and \<open>N/A\<close> collected in this
  order, the pass for \<open>N\<close> turns the article text \<open>rank: N/A\<close> into
  \<open>rank: [ANONYMIZED_PERSON]/A\<close>, so the occurrence of \<open>N/A\<close> is not replaced by the
  placeholder.
\<close>

theorem na_occurrence_not_replaced:
  "filter_and_chunk_json_data
      \<lparr>Decrees = Some [\<lparr>Date = None, Title_FR = None, Title_EN = None,
                         Appointee = Some \<lparr>Name = Some ''N'', Replacement = None\<rparr>,
                         Articles = None\<rparr>],
       Orders = Some [\<lparr>Date = None, Title_FR = None, Title_EN = None,
                        Appointee = Some \<lparr>Name = Some ''N/A'', Replacement = None\<rparr>,
                        Articles = Some [\<lparr>Content_FR = None, Content_EN = Some ''rank: N/A''\<rparr>]\<rparr>]\<rparr>
      ''g.json'' =
     Some [\<lparr>metadata = [(''Source'', Str ''g.json''), (''Type'', Str ''Decree''),
                         (''Date'', Str ''N/A''), (''Title (FR)'', Str ''N/A''),
                         (''Title (EN)'', Str ''N/A''),
                         (''Appointee Name'', Str ''[ANONYMIZED_PERSON]'')],
            chunks = []\<rparr>,
           \<lparr>metadata = [(''Source'', Str ''g.json''), (''Type'', Str ''Order''),
                         (''Date'', Str ''N/A''), (''Title (FR)'', Str ''N/A''),
                         (''Title (EN)'', Str ''N/A''), (''Appointee Name'', Str ''N/A'')],
            chunks = [\<lparr>Chunk_ID = ''001'', Chunk_FR = Some (Str ''''),
                       Chunk_EN = Some (Str ''rank: [ANONYMIZED_PERSON]/A'')\<rparr>]\<rparr>] \<and>
   contains_name ''rank: N/A'' ''N/A'' \<and>
   ''rank: [ANONYMIZED_PERSON]/A'' \<noteq> ''rank: [ANONYMIZED_PERSON]''"
  by code_simp

end
